theory Spec2Isabelle
  imports Main "HOL-Library.AList"
begin

section \<open>JavaScript values, objects and arrays\<close>

text \<open>
  The three prototypes (\<^verbatim>\<open>prototypes/taskdragmaster/src/App.jsx\<close>, prefix \<open>tdm_\<close>;
  \<^verbatim>\<open>prototypes/taskmaster/src/App.jsx\<close>, prefix \<open>tm_\<close>; and the third, unnamed file
  "TaskDragMaster Pro", prefix \<open>pro_\<close>) keep one board object in React state and replace
  it in their event handlers. A handler is modelled as a function from the current board
  and the handler's arguments to the board it passes to \<^verbatim>\<open>setBoard\<close>: a handler that
  returns without calling \<^verbatim>\<open>setBoard\<close> returns the board it was given, and a handler that
  can throw returns a sum whose left side is the error.

  A field of a task holds a string or is \<^verbatim>\<open>undefined\<close>. Identifiers of tasks and of
  columns are strings.
\<close>

datatype jsval = Undefined | Str string

text \<open>Truthiness: \<^verbatim>\<open>undefined\<close> and the empty string are falsy.\<close>

definition truthy :: "jsval \<Rightarrow> bool" where
  "truthy v = (case v of Undefined \<Rightarrow> False | Str s \<Rightarrow> s \<noteq> [])"

text \<open>\<^verbatim>\<open>a || b\<close>\<close>

definition js_or :: "jsval \<Rightarrow> jsval \<Rightarrow> jsval" where
  "js_or a b = (if truthy a then a else b)"

text \<open>
  A value used as a property key (\<^verbatim>\<open>obj[v]\<close>, \<^verbatim>\<open>{[v]: x}\<close>) is converted to a string:
  \<^verbatim>\<open>undefined\<close> becomes the key \<^verbatim>\<open>"undefined"\<close>.
\<close>

definition prop_key :: "jsval \<Rightarrow> string" where
  "prop_key v = (case v of Undefined \<Rightarrow> ''undefined'' | Str s \<Rightarrow> s)"

text \<open>
  A task is a plain object: a finite map from field names to values. Reading a field
  that is not there gives \<^verbatim>\<open>undefined\<close>; \<^verbatim>\<open>{...a, ...b}\<close> is \<open>a ++ b\<close>.
\<close>

type_synonym task = "string \<rightharpoonup> jsval"

text \<open>\<^verbatim>\<open>t.f\<close>\<close>

definition get_field :: "task \<Rightarrow> string \<Rightarrow> jsval" where
  "get_field t f = (case t f of None \<Rightarrow> Undefined | Some v \<Rightarrow> v)"

text \<open>
  The handlers read the fields \<^verbatim>\<open>id\<close>, \<^verbatim>\<open>columnId\<close>, \<^verbatim>\<open>status\<close> and \<^verbatim>\<open>createdAt\<close> of a task they
  looked up, and \<^verbatim>\<open>newTask\<close> reads the fields of its partial. None of these names is a
  member of \<^verbatim>\<open>Object.prototype\<close> or of a function, so such a read sees own fields only.
\<close>

subsection \<open>Looking a key up in an object\<close>

text \<open>
  \<^verbatim>\<open>board.tasks\<close> and \<^verbatim>\<open>board.order\<close> are plain objects, and the handlers index them with
  ids that come from outside (\<^verbatim>\<open>board.tasks[over.id]\<close>, \<^verbatim>\<open>board.order[colId]\<close>,
  \<^verbatim>\<open>over.id in board.order\<close>). Such a lookup walks the prototype chain: a name that is not
  an own key of the object but is a member of \<^verbatim>\<open>Object.prototype\<close> yields that member, a
  function (for \<^verbatim>\<open>__proto__\<close>: the prototype object), which is truthy. The members are
  those of ECMAScript and its Annex B.
\<close>

definition object_prototype_names :: "string list" where
  "object_prototype_names =
     [''constructor'', ''hasOwnProperty'', ''isPrototypeOf'', ''propertyIsEnumerable'',
      ''toLocaleString'', ''toString'', ''valueOf'', ''__proto__'',
      ''__defineGetter__'', ''__defineSetter__'', ''__lookupGetter__'', ''__lookupSetter__'']"

datatype 'a lookup = Own 'a | Inherited | Missing

text \<open>\<^verbatim>\<open>o[k]\<close>, for an object whose own keys and values are the map \<open>own\<close>\<close>

definition obj_get :: "(string \<rightharpoonup> 'a) \<Rightarrow> string \<Rightarrow> 'a lookup" where
  "obj_get own k =
     (case own k of
        Some v \<Rightarrow> Own v
      | None \<Rightarrow> if k \<in> set object_prototype_names then Inherited else Missing)"

text \<open>
  The truthiness of \<^verbatim>\<open>o[k]\<close>, which is also \<^verbatim>\<open>k in o\<close>: an own value is an array or an
  object, an inherited one a function or an object, and only a missing one is
  \<^verbatim>\<open>undefined\<close>.
\<close>

definition present :: "'a lookup \<Rightarrow> bool" where
  "present l = (case l of Own v \<Rightarrow> True | Inherited \<Rightarrow> True | Missing \<Rightarrow> False)"

text \<open>
  \<^verbatim>\<open>x?.f\<close>, and \<^verbatim>\<open>x.f\<close> after \<open>x\<close> was tested to be truthy, where \<open>x\<close> is the result of
  looking a task up: an inherited function has none of the fields that are read.
\<close>

definition opt_field :: "task lookup \<Rightarrow> string \<Rightarrow> jsval" where
  "opt_field l f =
     (case l of Own t \<Rightarrow> get_field t f | Inherited \<Rightarrow> Undefined | Missing \<Rightarrow> Undefined)"

text \<open>
  \<^verbatim>\<open>{...x}\<close> and \<^verbatim>\<open>{...(x || {})}\<close>, where \<open>x\<close> is the result of looking a task up: the
  spread copies the own enumerable properties, and an inherited function has none.
\<close>

definition spread :: "task lookup \<Rightarrow> task" where
  "spread l = (case l of Own t \<Rightarrow> t | Inherited \<Rightarrow> Map.empty | Missing \<Rightarrow> Map.empty)"

text \<open>
  \<^verbatim>\<open>board.order\<close> is an object from column ids to arrays of task ids. It is an association
  list, because \<^verbatim>\<open>Object.keys\<close> enumerates it in insertion order: \<open>AList.update\<close> replaces
  the value of a key in place and appends a new key at the end, as \<^verbatim>\<open>{...o, [k]: v}\<close> does
  (for keys that are not array indices, which holds for the column ids of the prototypes).
  A computed key always makes an own property.
\<close>

type_synonym order_obj = "(string \<times> string list) list"

text \<open>\<^verbatim>\<open>board.order[k]\<close>\<close>

definition order_get :: "order_obj \<Rightarrow> string \<Rightarrow> string list lookup" where
  "order_get ord k = obj_get (map_of ord) k"

text \<open>\<^verbatim>\<open>k in board.order\<close>, and the truthiness of \<^verbatim>\<open>board.order[k]\<close>\<close>

definition has_key :: "order_obj \<Rightarrow> string \<Rightarrow> bool" where
  "has_key ord k = present (order_get ord k)"

text \<open>
  What the handlers throw: iterating or calling a method of something that is not an
  array is a \<^verbatim>\<open>TypeError\<close>.
\<close>

datatype error = TypeError

text \<open>
  \<^verbatim>\<open>[...(board.order[k] || [])]\<close> and \<^verbatim>\<open>(board.order[k] || []).filter(...)\<close>: the array
  stored under an own key, the empty array for a missing key, and a \<^verbatim>\<open>TypeError\<close> for an
  inherited name, whose value is truthy but is neither iterable nor has a \<^verbatim>\<open>filter\<close>.
\<close>

definition order_list :: "order_obj \<Rightarrow> string \<Rightarrow> error + string list" where
  "order_list ord k =
     (case order_get ord k of
        Own xs \<Rightarrow> Inr xs
      | Inherited \<Rightarrow> Inl TypeError
      | Missing \<Rightarrow> Inr [])"

text \<open>
  The array stored under the own key \<open>k\<close>, and the empty array when \<open>k\<close> is not an own
  key. This is \<^verbatim>\<open>board.order[k] || []\<close> for a key that is an own key or is not an inherited
  name, such as the literal key of \<^verbatim>\<open>board.order.todo\<close> or a key taken from
  \<^verbatim>\<open>Object.keys(board.order)\<close>; it is also how the statements below read the list of a
  column off a board.
\<close>

definition order_or_empty :: "order_obj \<Rightarrow> string \<Rightarrow> string list" where
  "order_or_empty ord k = (case map_of ord k of None \<Rightarrow> [] | Some xs \<Rightarrow> xs)"

text \<open>\<^verbatim>\<open>xs.indexOf(x)\<close>: the first index of \<open>x\<close>, or -1.\<close>

fun indexOf :: "'a list \<Rightarrow> 'a \<Rightarrow> int" where
  "indexOf [] x = - 1"
| "indexOf (y # ys) x =
     (if y = x then 0 else (let r = indexOf ys x in if r = - 1 then - 1 else r + 1))"

text \<open>
  The start position of \<^verbatim>\<open>splice\<close>: a negative start counts from the end, and the result
  is clamped to the array.
\<close>

definition splice_start :: "int \<Rightarrow> nat \<Rightarrow> nat" where
  "splice_start s n = (if s < 0 then nat (max (int n + s) 0) else min (nat s) n)"

text \<open>\<^verbatim>\<open>xs.splice(s, 1)\<close>\<close>

definition splice_remove1 :: "int \<Rightarrow> 'a list \<Rightarrow> 'a list" where
  "splice_remove1 s xs = (let i = splice_start s (length xs) in take i xs @ drop (Suc i) xs)"

text \<open>\<^verbatim>\<open>xs.splice(s, 0, x)\<close>\<close>

definition splice_insert :: "int \<Rightarrow> 'a \<Rightarrow> 'a list \<Rightarrow> 'a list" where
  "splice_insert s x xs = (let i = splice_start s (length xs) in take i xs @ x # drop i xs)"

section \<open>The board\<close>

text \<open>
  \<^verbatim>\<open>{ id, name, columns, tasks, order, ts }\<close>. A column is a pair of its id and its name.
  The key order of \<^verbatim>\<open>tasks\<close> is not read by any handler below, so it is a map.
\<close>

record board =
  board_id :: string
  board_name :: string
  columns :: "(string \<times> string) list"
  tasks :: "string \<rightharpoonup> task"
  order :: order_obj
  ts :: string

definition DEFAULT_COLUMNS :: "(string \<times> string) list" where
  "DEFAULT_COLUMNS = [(''todo'', ''To do''), (''inprogress'', ''In progress''), (''done'', ''Done'')]"

definition pro_DEFAULT_COLUMNS :: "(string \<times> string) list" where
  "pro_DEFAULT_COLUMNS = [(''todo'', ''To Do''), (''inprogress'', ''In Progress''), (''done'', ''Done'')]"

text \<open>\<^verbatim>\<open>emptyBoard()\<close>; the argument is the reading of the clock.\<close>

definition tm_emptyBoard :: "string \<Rightarrow> board" where
  "tm_emptyBoard now =
     \<lparr> board_id = ''default'', board_name = ''My Board'', columns = DEFAULT_COLUMNS,
       tasks = Map.empty,
       order = [(''todo'', []), (''inprogress'', []), (''done'', [])],
       ts = now \<rparr>"

definition tdm_emptyBoard :: "string \<Rightarrow> board" where
  "tdm_emptyBoard now =
     \<lparr> board_id = ''default'', board_name = ''My Board'', columns = DEFAULT_COLUMNS,
       tasks = Map.empty,
       order = AList.update (fst (DEFAULT_COLUMNS ! 2)) []
                (AList.update (fst (DEFAULT_COLUMNS ! 1)) []
                  (AList.update (fst (DEFAULT_COLUMNS ! 0)) [] [])),
       ts = now \<rparr>"

definition pro_emptyBoard :: "string \<Rightarrow> board" where
  "pro_emptyBoard now =
     \<lparr> board_id = ''main'', board_name = ''Board'', columns = pro_DEFAULT_COLUMNS,
       tasks = Map.empty,
       order = fold (\<lambda>c ord. AList.update (fst c) [] ord) pro_DEFAULT_COLUMNS [],
       ts = now \<rparr>"

section \<open>Loading the board at startup\<close>

text \<open>
  \<^verbatim>\<open>localStorage.getItem\<close> gives \<^verbatim>\<open>null\<close> (\<open>None\<close>) or the stored string. \<^verbatim>\<open>JSON.parse\<close>
  is a parameter: it throws (\<open>SyntaxError\<close>) or returns a value, which is \<^verbatim>\<open>null\<close>
  (\<open>Parsed None\<close>) or is taken as the board without any check (\<open>Parsed (Some b)\<close>).
\<close>

datatype 'a parse_result = SyntaxError | Parsed 'a

text \<open>\<^verbatim>\<open>loadStore()\<close> of taskmaster and taskdragmaster; \<open>None\<close> is \<^verbatim>\<open>null\<close>.\<close>

definition loadStore :: "(string \<Rightarrow> board option parse_result) \<Rightarrow> string option \<Rightarrow> board option" where
  "loadStore parse raw =
     (case raw of
        None \<Rightarrow> None
      | Some r \<Rightarrow>
          if r = [] then None
          else (case parse r of SyntaxError \<Rightarrow> None | Parsed v \<Rightarrow> v))"

text \<open>\<^verbatim>\<open>loadBoard()\<close> of the Pro variant: the same steps, all inside the \<^verbatim>\<open>try\<close>.\<close>

definition loadBoard :: "(string \<Rightarrow> board option parse_result) \<Rightarrow> string option \<Rightarrow> board option" where
  "loadBoard parse raw =
     (case raw of
        None \<Rightarrow> None
      | Some r \<Rightarrow>
          if r = [] then None
          else (case parse r of SyntaxError \<Rightarrow> None | Parsed v \<Rightarrow> v))"

text \<open>The initial state of \<^verbatim>\<open>App\<close>: \<^verbatim>\<open>loadStore() || emptyBoard()\<close>.\<close>

definition tm_initialBoard :: "(string \<Rightarrow> board option parse_result) \<Rightarrow> string option \<Rightarrow> string \<Rightarrow> board" where
  "tm_initialBoard parse raw now =
     (case loadStore parse raw of None \<Rightarrow> tm_emptyBoard now | Some b \<Rightarrow> b)"

definition tdm_initialBoard :: "(string \<Rightarrow> board option parse_result) \<Rightarrow> string option \<Rightarrow> string \<Rightarrow> board" where
  "tdm_initialBoard parse raw now =
     (case loadStore parse raw of None \<Rightarrow> tdm_emptyBoard now | Some b \<Rightarrow> b)"

definition pro_initialBoard :: "(string \<Rightarrow> board option parse_result) \<Rightarrow> string option \<Rightarrow> string \<Rightarrow> board" where
  "pro_initialBoard parse raw now =
     (case loadBoard parse raw of None \<Rightarrow> pro_emptyBoard now | Some b \<Rightarrow> b)"

section \<open>Creating and updating tasks\<close>

text \<open>
  \<^verbatim>\<open>newTask(partial)\<close> of taskdragmaster and taskmaster. The arguments \<open>uuid\<close>, \<open>t_cre\<close> and
  \<open>t_upd\<close> are what \<^verbatim>\<open>uuidv4()\<close> and the two calls of \<^verbatim>\<open>nowIso()\<close> return. The default column
  is \<^verbatim>\<open>DEFAULT_COLUMNS[0].id\<close> in taskdragmaster and the literal \<^verbatim>\<open>"todo"\<close> in taskmaster.
\<close>

definition tdm_newTask :: "string \<Rightarrow> string \<Rightarrow> string \<Rightarrow> task \<Rightarrow> task" where
  "tdm_newTask uuid t_cre t_upd partial =
     [''id'' \<mapsto> Str uuid,
      ''title'' \<mapsto> js_or (get_field partial ''title'') (Str ''New task''),
      ''description'' \<mapsto> js_or (get_field partial ''description'') (Str []),
      ''priority'' \<mapsto> js_or (get_field partial ''priority'') (Str ''medium''),
      ''due'' \<mapsto> js_or (get_field partial ''due'') (Str []),
      ''createdAt'' \<mapsto> Str t_cre,
      ''updatedAt'' \<mapsto> Str t_upd,
      ''columnId'' \<mapsto> js_or (get_field partial ''columnId'') (Str (fst (DEFAULT_COLUMNS ! 0)))]"

definition tm_newTask :: "string \<Rightarrow> string \<Rightarrow> string \<Rightarrow> task \<Rightarrow> task" where
  "tm_newTask uuid t_cre t_upd partial =
     [''id'' \<mapsto> Str uuid,
      ''title'' \<mapsto> js_or (get_field partial ''title'') (Str ''New task''),
      ''description'' \<mapsto> js_or (get_field partial ''description'') (Str []),
      ''priority'' \<mapsto> js_or (get_field partial ''priority'') (Str ''medium''),
      ''due'' \<mapsto> js_or (get_field partial ''due'') (Str []),
      ''createdAt'' \<mapsto> Str t_cre,
      ''updatedAt'' \<mapsto> Str t_upd,
      ''columnId'' \<mapsto> js_or (get_field partial ''columnId'') (Str ''todo'')]"

text \<open>
  \<^verbatim>\<open>addTask()\<close> of taskdragmaster: \<^verbatim>\<open>newTask({})\<close>, stored under its id and put at the head
  of the order of its column. \<open>t_ts\<close> is the clock reading written to \<^verbatim>\<open>ts\<close>. The column
  of \<^verbatim>\<open>newTask({})\<close> is always \<^verbatim>\<open>todo\<close>, which is not an inherited name, so
  \<^verbatim>\<open>board.order[colId] || []\<close> is an array here.
\<close>

definition tdm_addTask :: "string \<Rightarrow> string \<Rightarrow> string \<Rightarrow> string \<Rightarrow> board \<Rightarrow> board" where
  "tdm_addTask uuid t_cre t_upd t_ts b =
     (let t = tdm_newTask uuid t_cre t_upd Map.empty;
          colId = get_field t ''columnId'';
          tid = prop_key (get_field t ''id'')
      in b\<lparr> tasks := (tasks b)(tid \<mapsto> t),
             order := AList.update (prop_key colId)
                        (tid # order_or_empty (order b) (prop_key colId)) (order b),
             ts := t_ts \<rparr>)"

text \<open>
  \<^verbatim>\<open>saveTask(taskPartial)\<close> of taskmaster: one handler for creating and for editing. It is
  an edit when the partial carries an id for which \<^verbatim>\<open>board.tasks[id]\<close> is truthy; otherwise
  the task is stored under the given id, or under a fresh one, and the id is put at the
  head of \<^verbatim>\<open>order.todo\<close>. The handler has no path that throws.
\<close>

definition tm_saveTask :: "string \<Rightarrow> string \<Rightarrow> string \<Rightarrow> string \<Rightarrow> board \<Rightarrow> task \<Rightarrow> board" where
  "tm_saveTask uuid t_upd t_cre t_ts b taskPartial =
     (let pid = get_field taskPartial ''id'';
          isEdit = (truthy pid \<and> present (obj_get (tasks b) (prop_key pid)));
          tid = prop_key (js_or pid (Str uuid));
          t = (spread (obj_get (tasks b) tid) ++ taskPartial)
                (''id'' \<mapsto> Str tid,
                 ''updatedAt'' \<mapsto> Str t_upd,
                 ''createdAt'' \<mapsto> js_or (opt_field (obj_get (tasks b) tid) ''createdAt'') (Str t_cre));
          next = b\<lparr> tasks := (tasks b)(tid \<mapsto> t), ts := t_ts \<rparr>
      in if \<not> isEdit
         then next\<lparr> order := AList.update ''todo'' (tid # order_or_empty (order b) ''todo'') (order b) \<rparr>
         else next)"

text \<open>
  \<^verbatim>\<open>saveTask\<close> of the Pro variant, whose tasks record their column in the field
  \<^verbatim>\<open>status\<close>: \<^verbatim>\<open>taskPartial.status || board.tasks[id]?.status || "todo"\<close>.
\<close>

definition pro_saveTask :: "string \<Rightarrow> string \<Rightarrow> string \<Rightarrow> string \<Rightarrow> board \<Rightarrow> task \<Rightarrow> board" where
  "pro_saveTask uuid t_upd t_cre t_ts b taskPartial =
     (let pid = get_field taskPartial ''id'';
          isEdit = (truthy pid \<and> present (obj_get (tasks b) (prop_key pid)));
          tid = prop_key (js_or pid (Str uuid));
          t = (spread (obj_get (tasks b) tid) ++ taskPartial)
                (''id'' \<mapsto> Str tid,
                 ''updatedAt'' \<mapsto> Str t_upd,
                 ''createdAt'' \<mapsto> js_or (opt_field (obj_get (tasks b) tid) ''createdAt'') (Str t_cre),
                 ''status'' \<mapsto> js_or (js_or (get_field taskPartial ''status'')
                                            (opt_field (obj_get (tasks b) tid) ''status'')) (Str ''todo''));
          next = b\<lparr> tasks := (tasks b)(tid \<mapsto> t), ts := t_ts \<rparr>
      in if \<not> isEdit
         then next\<lparr> order := AList.update ''todo'' (tid # order_or_empty (order b) ''todo'') (order b) \<rparr>
         else next)"

section \<open>Deleting a task\<close>

text \<open>
  \<^verbatim>\<open>deleteTask(id)\<close>. taskdragmaster and taskmaster return when \<^verbatim>\<open>board.tasks[id]\<close> is falsy
  and otherwise filter the order of the column the task records; taskmaster asks for
  confirmation first (\<open>confirmed\<close> is the answer of \<^verbatim>\<open>confirm(...)\<close>). They throw when the
  recorded column is an inherited name. \<^verbatim>\<open>delete tasks[id]\<close> removes an own key and does
  nothing for any other name. The Pro variant filters the order of every own key and
  does not throw.
\<close>

definition tdm_deleteTask :: "string \<Rightarrow> board \<Rightarrow> string \<Rightarrow> error + board" where
  "tdm_deleteTask t_ts b tid =
     (if \<not> present (obj_get (tasks b) tid) then Inr b
      else
        let colId = opt_field (obj_get (tasks b) tid) ''columnId''
        in (case order_list (order b) (prop_key colId) of
              Inl e \<Rightarrow> Inl e
            | Inr colOrder \<Rightarrow>
                let nextOrder = filter (\<lambda>x. x \<noteq> tid) colOrder
                in Inr (b\<lparr> tasks := (tasks b)(tid := None),
                           order := AList.update (prop_key colId) nextOrder (order b),
                           ts := t_ts \<rparr>)))"

definition tm_deleteTask :: "bool \<Rightarrow> string \<Rightarrow> board \<Rightarrow> string \<Rightarrow> error + board" where
  "tm_deleteTask confirmed t_ts b tid =
     (if \<not> present (obj_get (tasks b) tid) then Inr b
      else if \<not> confirmed then Inr b
      else
        let colId = opt_field (obj_get (tasks b) tid) ''columnId''
        in (case order_list (order b) (prop_key colId) of
              Inl e \<Rightarrow> Inl e
            | Inr colOrder \<Rightarrow>
                let nextOrder = filter (\<lambda>x. x \<noteq> tid) colOrder
                in Inr (b\<lparr> tasks := (tasks b)(tid := None),
                           order := AList.update (prop_key colId) nextOrder (order b),
                           ts := t_ts \<rparr>)))"

definition pro_deleteTask :: "bool \<Rightarrow> string \<Rightarrow> board \<Rightarrow> string \<Rightarrow> board" where
  "pro_deleteTask confirmed t_ts b tid =
     (if \<not> confirmed then b
      else if \<not> present (obj_get (tasks b) tid) then b
      else b\<lparr> tasks := (tasks b)(tid := None),
              order := map (\<lambda>(k, xs). (k, filter (\<lambda>x. x \<noteq> tid) xs)) (order b),
              ts := t_ts \<rparr>)"

section \<open>The drag handler\<close>

text \<open>
  \<^verbatim>\<open>handleDragEnd({active, over})\<close>: \<open>active\<close> is \<^verbatim>\<open>active.id\<close>, and \<open>over\<close> is \<open>None\<close> when
  \<^verbatim>\<open>over\<close> is \<^verbatim>\<open>null\<close> and \<open>Some over.id\<close> otherwise. \<open>t_upd\<close> and \<open>t_ts\<close> are the clock
  readings written to the task's \<^verbatim>\<open>updatedAt\<close> and to the board's \<^verbatim>\<open>ts\<close>. The result is
  \<open>Inr\<close> of the board the handler passes to \<^verbatim>\<open>setBoard\<close> (or of the board as it was, when
  it returns early), and \<open>Inl TypeError\<close> when it throws before reaching \<^verbatim>\<open>setBoard\<close>.

  In \<^verbatim>\<open>{...board.order, [from]: fromOrder, [to]: toOrder}\<close> the later entry wins when both
  keys are the same: the inner update is the source column's, the outer the destination's.
\<close>

definition tdm_fromColId :: "board \<Rightarrow> string \<Rightarrow> jsval" where
  "tdm_fromColId b active = opt_field (obj_get (tasks b) active) ''columnId''"

definition tdm_toColId :: "board \<Rightarrow> string \<Rightarrow> string \<Rightarrow> jsval" where
  "tdm_toColId b active over_id =
     (if has_key (order b) over_id then Str over_id else tdm_fromColId b active)"

definition tdm_handleDragEnd :: "string \<Rightarrow> string \<Rightarrow> board \<Rightarrow> string \<Rightarrow> string option \<Rightarrow> error + board" where
  "tdm_handleDragEnd t_upd t_ts b active over =
     (case over of
        None \<Rightarrow> Inr b
      | Some over_id \<Rightarrow>
          let fromColId = tdm_fromColId b active;
              toColId = tdm_toColId b active over_id
          in (case order_list (order b) (prop_key fromColId) of
                Inl e \<Rightarrow> Inl e
              | Inr fromOrder0 \<Rightarrow>
                  (case order_list (order b) (prop_key toColId) of
                     Inl e \<Rightarrow> Inl e
                   | Inr toOrder0 \<Rightarrow>
                       let fromIdx = indexOf fromOrder0 active;
                           fromOrder = (if fromIdx \<noteq> - 1 then splice_remove1 fromIdx fromOrder0
                                        else fromOrder0);
                           overIndex = indexOf toOrder0 over_id;
                           toOrder = (if overIndex = - 1 then toOrder0 @ [active]
                                      else splice_insert overIndex active toOrder0)
                       in Inr (b\<lparr> tasks := (tasks b)(active \<mapsto>
                                         (spread (obj_get (tasks b) active))
                                           (''columnId'' \<mapsto> toColId, ''updatedAt'' \<mapsto> Str t_upd)),
                                  order := AList.update (prop_key toColId) toOrder
                                             (AList.update (prop_key fromColId) fromOrder (order b)),
                                  ts := t_ts \<rparr>))))"

definition tm_fromColId :: "board \<Rightarrow> string \<Rightarrow> jsval" where
  "tm_fromColId b active = opt_field (obj_get (tasks b) active) ''columnId''"

definition tm_toColId :: "board \<Rightarrow> string \<Rightarrow> string \<Rightarrow> jsval" where
  "tm_toColId b active over_id =
     (if has_key (order b) over_id then Str over_id
      else if present (obj_get (tasks b) over_id)
      then opt_field (obj_get (tasks b) over_id) ''columnId''
      else tm_fromColId b active)"

definition tm_handleDragEnd :: "string \<Rightarrow> string \<Rightarrow> board \<Rightarrow> string \<Rightarrow> string option \<Rightarrow> error + board" where
  "tm_handleDragEnd t_upd t_ts b active over =
     (case over of
        None \<Rightarrow> Inr b
      | Some over_id \<Rightarrow>
          let fromColId = tm_fromColId b active;
              toColId = tm_toColId b active over_id
          in (case order_list (order b) (prop_key fromColId) of
                Inl e \<Rightarrow> Inl e
              | Inr fromOrder0 \<Rightarrow>
                  (case order_list (order b) (prop_key toColId) of
                     Inl e \<Rightarrow> Inl e
                   | Inr toOrder0 \<Rightarrow>
                       let fromOrder = filter (\<lambda>x. x \<noteq> active) fromOrder0;
                           toOrder =
                             (if present (obj_get (tasks b) over_id)
                                 \<and> opt_field (obj_get (tasks b) over_id) ''id'' \<noteq> Str active
                              then (let idx = indexOf toOrder0 over_id
                                    in if idx = - 1 then toOrder0 @ [active]
                                       else splice_insert idx active toOrder0)
                              else toOrder0 @ [active])
                       in Inr (b\<lparr> tasks := (tasks b)(active \<mapsto>
                                         (spread (obj_get (tasks b) active))
                                           (''columnId'' \<mapsto> toColId, ''updatedAt'' \<mapsto> Str t_upd)),
                                  order := AList.update (prop_key toColId) toOrder
                                             (AList.update (prop_key fromColId) fromOrder (order b)),
                                  ts := t_ts \<rparr>))))"

text \<open>
  The Pro variant finds the source column by scanning \<^verbatim>\<open>Object.keys(board.order)\<close> for the
  first column whose order includes the active id (\<^verbatim>\<open>undefined\<close> when there is none). The
  keys scanned are own keys.
\<close>

definition pro_sourceCol :: "order_obj \<Rightarrow> string \<Rightarrow> jsval" where
  "pro_sourceCol ord active =
     (case find (\<lambda>col. active \<in> set (order_or_empty ord col)) (map fst ord) of
        None \<Rightarrow> Undefined
      | Some col \<Rightarrow> Str col)"

definition pro_destCol :: "board \<Rightarrow> string \<Rightarrow> string \<Rightarrow> jsval" where
  "pro_destCol b active overId =
     (if has_key (order b) overId then Str overId
      else if present (obj_get (tasks b) overId)
      then opt_field (obj_get (tasks b) overId) ''status''
      else pro_sourceCol (order b) active)"

definition pro_handleDragEnd :: "string \<Rightarrow> string \<Rightarrow> board \<Rightarrow> string \<Rightarrow> string option \<Rightarrow> error + board" where
  "pro_handleDragEnd t_upd t_ts b active over =
     (case over of
        None \<Rightarrow> Inr b
      | Some overId \<Rightarrow>
          let sourceCol = pro_sourceCol (order b) active;
              destCol = pro_destCol b active overId
          in (case order_list (order b) (prop_key sourceCol) of
                Inl e \<Rightarrow> Inl e
              | Inr sourceOrder0 \<Rightarrow>
                  (case order_list (order b) (prop_key destCol) of
                     Inl e \<Rightarrow> Inl e
                   | Inr destOrder0 \<Rightarrow>
                       let sourceOrder = filter (\<lambda>x. x \<noteq> active) sourceOrder0;
                           destOrder =
                             (if sourceCol = destCol \<and> present (obj_get (tasks b) overId)
                              then (let oldIndex = indexOf sourceOrder0 active;
                                        newIndex = indexOf destOrder0 overId
                                    in splice_insert newIndex active
                                         (splice_remove1 oldIndex destOrder0))
                              else if present (obj_get (tasks b) overId)
                              then (let idx = indexOf destOrder0 overId
                                    in if idx = - 1 then destOrder0 @ [active]
                                       else splice_insert idx active destOrder0)
                              else destOrder0 @ [active])
                       in Inr (b\<lparr> tasks := (tasks b)(active \<mapsto>
                                         (spread (obj_get (tasks b) active))
                                           (''status'' \<mapsto> destCol, ''updatedAt'' \<mapsto> Str t_upd)),
                                  order := AList.update (prop_key destCol) destOrder
                                             (AList.update (prop_key sourceCol) sourceOrder (order b)),
                                  ts := t_ts \<rparr>))))"

text \<open>
  The board that \<^verbatim>\<open>App\<close> holds after a handler ran on the board \<open>b\<close>: the one passed to
  \<^verbatim>\<open>setBoard\<close>, and \<open>b\<close> itself when the handler threw.
\<close>

definition board_after :: "board \<Rightarrow> error + board \<Rightarrow> board" where
  "board_after b r = (case r of Inl e \<Rightarrow> b | Inr b' \<Rightarrow> b')"

section \<open>Boards used as concrete inputs\<close>

text \<open>
  A task as the handlers store it; \<open>fld\<close> is the field that records the column
  (\<^verbatim>\<open>columnId\<close> in taskdragmaster and taskmaster, \<^verbatim>\<open>status\<close> in the Pro variant).
\<close>

definition mk_task :: "string \<Rightarrow> string \<Rightarrow> string \<Rightarrow> task" where
  "mk_task fld tid col =
     [''id'' \<mapsto> Str tid, ''title'' \<mapsto> Str tid, fld \<mapsto> Str col,
      ''createdAt'' \<mapsto> Str ''t0'', ''updatedAt'' \<mapsto> Str ''t0'']"

text \<open>One column \<^verbatim>\<open>todo\<close> whose order is \<^verbatim>\<open>[A, B, C]\<close>.\<close>

definition abc_board :: "string \<Rightarrow> board" where
  "abc_board fld =
     \<lparr> board_id = ''default'', board_name = ''My Board'', columns = [(''todo'', ''To do'')],
       tasks = [''A'' \<mapsto> mk_task fld ''A'' ''todo'', ''B'' \<mapsto> mk_task fld ''B'' ''todo'',
                ''C'' \<mapsto> mk_task fld ''C'' ''todo''],
       order = [(''todo'', [''A'', ''B'', ''C''])],
       ts = ''t0'' \<rparr>"

text \<open>Two columns: \<^verbatim>\<open>todo\<close> holds \<^verbatim>\<open>[A, B]\<close> and \<^verbatim>\<open>done\<close> holds \<^verbatim>\<open>[C]\<close>.\<close>

definition two_column_board :: "string \<Rightarrow> board" where
  "two_column_board fld =
     \<lparr> board_id = ''default'', board_name = ''My Board'',
       columns = [(''todo'', ''To do''), (''done'', ''Done'')],
       tasks = [''A'' \<mapsto> mk_task fld ''A'' ''todo'', ''B'' \<mapsto> mk_task fld ''B'' ''todo'',
                ''C'' \<mapsto> mk_task fld ''C'' ''done''],
       order = [(''todo'', [''A'', ''B'']), (''done'', [''C''])],
       ts = ''t0'' \<rparr>"

text \<open>
  A board whose order has drifted from the tasks: task \<^verbatim>\<open>A\<close> records the column \<^verbatim>\<open>todo\<close>
  and is listed in \<^verbatim>\<open>done\<close>.
\<close>

definition drifted_board :: "string \<Rightarrow> board" where
  "drifted_board fld =
     \<lparr> board_id = ''default'', board_name = ''My Board'',
       columns = [(''todo'', ''To do''), (''done'', ''Done'')],
       tasks = [''A'' \<mapsto> mk_task fld ''A'' ''todo''],
       order = [(''todo'', []), (''done'', [''A''])],
       ts = ''t0'' \<rparr>"

section \<open>The invariant of the data model\<close>

text \<open>
  The number of times an id occurs across all the order lists, and the invariant for one
  task id: if it is a key of \<^verbatim>\<open>tasks\<close>, it occurs exactly once across the order lists, and
  that occurrence is in the list of the column its task records in the field \<open>fld\<close>.
\<close>

definition occurrences :: "board \<Rightarrow> string \<Rightarrow> nat" where
  "occurrences b tid = count_list (concat (map snd (order b))) tid"

definition placed_once :: "string \<Rightarrow> board \<Rightarrow> string \<Rightarrow> bool" where
  "placed_once fld b tid =
     (case tasks b tid of
        None \<Rightarrow> True
      | Some t \<Rightarrow>
          occurrences b tid = 1 \<and>
          tid \<in> set (order_or_empty (order b) (prop_key (get_field t fld))))"

section \<open>Facts about the array and object operations\<close>

lemma order_or_empty_update:
  "order_or_empty (AList.update k v al) k' = (if k' = k then v else order_or_empty al k')"
  by (simp add: order_or_empty_def update_conv')

lemma order_or_empty_map_filter:
  "order_or_empty (map (\<lambda>(k, xs). (k, filter P xs)) ord) c = filter P (order_or_empty ord c)"
  by (induction ord) (auto simp: order_or_empty_def)

lemma indexOf_mem:
  "x \<in> set xs \<Longrightarrow> 0 \<le> indexOf xs x \<and> nat (indexOf xs x) < length xs \<and> xs ! nat (indexOf xs x) = x"
proof (induction xs)
  case Nil
  then show ?case by simp
next
  case (Cons y ys)
  show ?case
  proof (cases "y = x")
    case True
    then show ?thesis by simp
  next
    case False
    with Cons.prems have mem: "x \<in> set ys" by simp
    from Cons.IH [OF mem] have ih: "0 \<le> indexOf ys x" "nat (indexOf ys x) < length ys"
      "ys ! nat (indexOf ys x) = x" by simp_all
    from ih(1) have ne: "indexOf ys x \<noteq> - 1" by simp
    from ih(1) have suc: "nat (indexOf ys x + 1) = Suc (nat (indexOf ys x))" by simp
    from False ne ih suc show ?thesis by (simp add: Let_def)
  qed
qed

lemma indexOf_absent: "x \<notin> set xs \<Longrightarrow> indexOf xs x = - 1"
  by (induction xs) (auto simp: Let_def)

lemma indexOf_notin: "indexOf xs x = - 1 \<longleftrightarrow> x \<notin> set xs"
proof
  assume "indexOf xs x = - 1"
  then show "x \<notin> set xs" using indexOf_mem [of x xs] by auto
next
  assume "x \<notin> set xs"
  then show "indexOf xs x = - 1" by (rule indexOf_absent)
qed

lemma set_splice_insert: "set (splice_insert s x xs) = insert x (set xs)"
proof -
  have un: "set (take i xs) \<union> set (drop i xs) = set xs" for i
    by (simp only: set_append [symmetric] append_take_drop_id)
  have "set (take i xs @ x # drop i xs) = insert x (set (take i xs) \<union> set (drop i xs))" for i
    by simp
  then have "set (take i xs @ x # drop i xs) = insert x (set xs)" for i
    by (simp only: un)
  then show ?thesis by (simp only: splice_insert_def Let_def)
qed

lemma splice_insert_remove1_same:
  assumes "x \<in> set xs"
  shows "splice_insert (indexOf xs x) x (splice_remove1 (indexOf xs x) xs) = xs"
proof -
  define i where "i = nat (indexOf xs x)"
  define ys where "ys = take i xs @ drop (Suc i) xs"
  from indexOf_mem [OF assms] have nn: "0 \<le> indexOf xs x" and lt: "i < length xs" and at: "xs ! i = x"
    by (simp_all add: i_def)
  have s1: "splice_start (indexOf xs x) (length xs) = i"
    using nn lt by (simp add: splice_start_def i_def)
  have rm: "splice_remove1 (indexOf xs x) xs = ys"
    by (simp add: splice_remove1_def s1 ys_def)
  have len: "length ys = length xs - 1"
    using lt by (simp add: ys_def)
  have s2: "splice_start (indexOf xs x) (length ys) = i"
    using nn lt by (simp add: splice_start_def i_def len)
  have tk: "take i ys = take i xs" using lt by (simp add: ys_def)
  have dr: "drop i ys = drop (Suc i) xs" using lt by (simp add: ys_def)
  have "splice_insert (indexOf xs x) x ys = take i xs @ x # drop (Suc i) xs"
    by (simp add: splice_insert_def s2 tk dr)
  also have "\<dots> = xs"
    using lt at id_take_nth_drop [of i xs] by simp
  finally show ?thesis by (simp add: rm)
qed

lemma pro_sourceCol_Str:
  assumes "pro_sourceCol ord a = Str c"
  shows "a \<in> set (order_or_empty ord c)"
proof -
  from assms have "find (\<lambda>col. a \<in> set (order_or_empty ord col)) (map fst ord) = Some c"
    by (simp add: pro_sourceCol_def split: option.splits)
  then show ?thesis by (auto simp: find_Some_iff)
qed

lemma order_or_empty_mem_map_of:
  "a \<in> set (order_or_empty ord c) \<Longrightarrow> map_of ord c = Some (order_or_empty ord c)"
  by (cases "map_of ord c") (simp_all add: order_or_empty_def)

lemma undefined_not_inherited: "''undefined'' \<notin> set object_prototype_names"
  by (simp add: object_prototype_names_def)

lemma todo_not_inherited: "''todo'' \<notin> set object_prototype_names"
  by (simp add: object_prototype_names_def)

lemma order_get_Own: "map_of ord k = Some xs \<Longrightarrow> order_get ord k = Own xs"
  by (simp add: order_get_def obj_get_def)

lemma order_get_undefined: "order_get ord ''undefined'' \<noteq> Inherited"
  by (simp add: order_get_def obj_get_def undefined_not_inherited split: option.splits)

lemma order_list_eq:
  "order_get ord k \<noteq> Inherited \<Longrightarrow> order_list ord k = Inr (order_or_empty ord k)"
  by (auto simp: order_list_def order_get_def obj_get_def order_or_empty_def
      split: option.splits if_splits)

lemma order_list_Inherited: "order_get ord k = Inherited \<Longrightarrow> order_list ord k = Inl TypeError"
  by (simp add: order_list_def)

lemma has_key_Missing: "order_get ord k = Missing \<Longrightarrow> \<not> has_key ord k"
  by (simp add: has_key_def present_def)

lemma obj_get_Some: "m k = Some v \<Longrightarrow> obj_get m k = Own v"
  by (simp add: obj_get_def)

lemma obj_get_not_Own: "m k = None \<Longrightarrow> spread (obj_get m k) = Map.empty \<and> opt_field (obj_get m k) f = Undefined"
  by (simp add: obj_get_def spread_def opt_field_def)

lemma pro_sourceCol_key_own:
  "order_get ord (prop_key (pro_sourceCol ord a)) \<noteq> Inherited"
proof (cases "find (\<lambda>col. a \<in> set (order_or_empty ord col)) (map fst ord)")
  case None
  then have "pro_sourceCol ord a = Undefined" by (simp add: pro_sourceCol_def)
  then show ?thesis by (simp add: prop_key_def order_get_undefined)
next
  case (Some c)
  then have src: "pro_sourceCol ord a = Str c" by (simp add: pro_sourceCol_def)
  from Some have "c \<in> set (map fst ord)" by (auto simp: find_Some_iff)
  then have "map_of ord c \<noteq> None" by (simp add: map_of_eq_None_iff)
  then obtain xs where "map_of ord c = Some xs" by auto
  then have "order_get ord c = Own xs" by (rule order_get_Own)
  then show ?thesis by (simp add: src prop_key_def)
qed

lemma occurrences_filter_out:
  "count_list (concat (map snd (map (\<lambda>(k, xs). (k, filter (\<lambda>x. x \<noteq> tid) xs)) ord))) tid = 0"
  by (induction ord) (auto simp: count_list_0_iff)

lemma order_list_Inr: "order_list ord k = Inr xs \<Longrightarrow> xs = order_or_empty ord k"
  by (auto simp: order_list_def order_get_def obj_get_def order_or_empty_def
      split: option.splits if_splits)

lemma not_placed_once:
  "tasks b' tid \<noteq> None \<Longrightarrow> occurrences b' tid = 2 \<Longrightarrow> \<not> placed_once fld b' tid"
  by (cases "tasks b' tid") (simp_all add: placed_once_def)

lemmas js_defs = truthy_def js_or_def prop_key_def get_field_def opt_field_def spread_def
  has_key_def present_def order_get_def obj_get_def order_list_def order_or_empty_def
  object_prototype_names_def splice_start_def splice_remove1_def splice_insert_def

lemmas board_defs = mk_task_def abc_board_def two_column_board_def drifted_board_def

section \<open>What the drag handlers do to tasks and order\<close>

lemma tm_handleDragEnd_returns:
  assumes "order_get (order b) (prop_key (tm_fromColId b a)) \<noteq> Inherited"
    and "order_get (order b) (prop_key (tm_toColId b a o_id)) \<noteq> Inherited"
  shows "\<not> isl (tm_handleDragEnd t_upd t_ts b a (Some o_id))"
  by (simp add: tm_handleDragEnd_def Let_def order_list_eq [OF assms(1)] order_list_eq [OF assms(2)])

lemma tm_handleDragEnd_tasks:
  assumes "order_get (order b) (prop_key (tm_fromColId b a)) \<noteq> Inherited"
    and "order_get (order b) (prop_key (tm_toColId b a o_id)) \<noteq> Inherited"
  shows "tasks (board_after b (tm_handleDragEnd t_upd t_ts b a (Some o_id)))
     = (tasks b)(a \<mapsto> (spread (obj_get (tasks b) a))(''columnId'' \<mapsto> tm_toColId b a o_id,
                                                        ''updatedAt'' \<mapsto> Str t_upd))"
  by (simp add: tm_handleDragEnd_def Let_def board_after_def
      order_list_eq [OF assms(1)] order_list_eq [OF assms(2)])

lemma tm_handleDragEnd_active_in_dest:
  assumes "order_get (order b) (prop_key (tm_fromColId b a)) \<noteq> Inherited"
    and "order_get (order b) (prop_key (tm_toColId b a o_id)) \<noteq> Inherited"
  shows "a \<in> set (order_or_empty (order (board_after b (tm_handleDragEnd t_upd t_ts b a (Some o_id))))
              (prop_key (tm_toColId b a o_id)))"
  by (simp add: tm_handleDragEnd_def Let_def board_after_def order_or_empty_update set_splice_insert
      order_list_eq [OF assms(1)] order_list_eq [OF assms(2)])

lemma tm_handleDragEnd_source:
  assumes "order_get (order b) (prop_key (tm_fromColId b a)) \<noteq> Inherited"
    and "order_get (order b) (prop_key (tm_toColId b a o_id)) \<noteq> Inherited"
    and "prop_key (tm_fromColId b a) \<noteq> prop_key (tm_toColId b a o_id)"
  shows "order_or_empty (order (board_after b (tm_handleDragEnd t_upd t_ts b a (Some o_id))))
           (prop_key (tm_fromColId b a))
     = filter (\<lambda>x. x \<noteq> a) (order_or_empty (order b) (prop_key (tm_fromColId b a)))"
  using assms(3)
  by (simp add: tm_handleDragEnd_def Let_def board_after_def order_or_empty_update
      order_list_eq [OF assms(1)] order_list_eq [OF assms(2)])

lemma pro_handleDragEnd_returns:
  assumes "order_get (order b) (prop_key (pro_destCol b a o_id)) \<noteq> Inherited"
  shows "\<not> isl (pro_handleDragEnd t_upd t_ts b a (Some o_id))"
  by (simp add: pro_handleDragEnd_def Let_def order_list_eq [OF pro_sourceCol_key_own]
      order_list_eq [OF assms])

lemma pro_handleDragEnd_tasks:
  assumes "order_get (order b) (prop_key (pro_destCol b a o_id)) \<noteq> Inherited"
  shows "tasks (board_after b (pro_handleDragEnd t_upd t_ts b a (Some o_id)))
     = (tasks b)(a \<mapsto> (spread (obj_get (tasks b) a))(''status'' \<mapsto> pro_destCol b a o_id,
                                                        ''updatedAt'' \<mapsto> Str t_upd))"
  by (simp add: pro_handleDragEnd_def Let_def board_after_def
      order_list_eq [OF pro_sourceCol_key_own] order_list_eq [OF assms])

lemma pro_handleDragEnd_active_in_dest:
  assumes "order_get (order b) (prop_key (pro_destCol b a o_id)) \<noteq> Inherited"
  shows "a \<in> set (order_or_empty (order (board_after b (pro_handleDragEnd t_upd t_ts b a (Some o_id))))
              (prop_key (pro_destCol b a o_id)))"
  by (simp add: pro_handleDragEnd_def Let_def board_after_def order_or_empty_update set_splice_insert
      order_list_eq [OF pro_sourceCol_key_own] order_list_eq [OF assms])

lemma pro_handleDragEnd_source:
  assumes "order_get (order b) (prop_key (pro_destCol b a o_id)) \<noteq> Inherited"
    and "prop_key (pro_sourceCol (order b) a) \<noteq> prop_key (pro_destCol b a o_id)"
  shows "order_or_empty (order (board_after b (pro_handleDragEnd t_upd t_ts b a (Some o_id))))
           (prop_key (pro_sourceCol (order b) a))
     = filter (\<lambda>x. x \<noteq> a) (order_or_empty (order b) (prop_key (pro_sourceCol (order b) a)))"
  using assms(2)
  by (simp add: pro_handleDragEnd_def Let_def board_after_def order_or_empty_update
      order_list_eq [OF pro_sourceCol_key_own] order_list_eq [OF assms(1)])

lemma pro_handleDragEnd_throws:
  assumes "order_get (order b) (prop_key (pro_destCol b a o_id)) = Inherited"
  shows "pro_handleDragEnd t_upd t_ts b a (Some o_id) = Inl TypeError"
  by (simp add: pro_handleDragEnd_def Let_def order_list_eq [OF pro_sourceCol_key_own]
      order_list_Inherited [OF assms])

section \<open>Loading: the fallback to an empty board\<close>

text \<open>
  Claim C9. When loading fails, because the key is absent (\<^verbatim>\<open>getItem\<close> gives \<^verbatim>\<open>null\<close>, or the
  stored string is empty) or because \<^verbatim>\<open>JSON.parse\<close> throws on the payload, the initial state
  of each of the three prototypes is its freshly made empty board: the three default
  columns, no tasks, and an empty order list for each column. The error is not propagated.
\<close>

theorem initialBoard_falls_back_to_emptyBoard:
  assumes "raw = None \<or> raw = Some [] \<or> (\<exists>r. raw = Some r \<and> parse r = SyntaxError)"
  shows "tm_initialBoard parse raw now = tm_emptyBoard now
       \<and> tdm_initialBoard parse raw now = tdm_emptyBoard now
       \<and> pro_initialBoard parse raw now = pro_emptyBoard now
       \<and> tasks (tm_emptyBoard now) = Map.empty
       \<and> tasks (tdm_emptyBoard now) = Map.empty
       \<and> tasks (pro_emptyBoard now) = Map.empty
       \<and> order (tm_emptyBoard now) = [(''todo'', []), (''inprogress'', []), (''done'', [])]
       \<and> order (tdm_emptyBoard now) = [(''todo'', []), (''inprogress'', []), (''done'', [])]
       \<and> order (pro_emptyBoard now) = [(''todo'', []), (''inprogress'', []), (''done'', [])]
       \<and> map fst (columns (tm_emptyBoard now)) = [''todo'', ''inprogress'', ''done'']
       \<and> map fst (columns (tdm_emptyBoard now)) = [''todo'', ''inprogress'', ''done'']
       \<and> map fst (columns (pro_emptyBoard now)) = [''todo'', ''inprogress'', ''done'']"
proof -
  from assms have ls: "loadStore parse raw = None"
    by (auto simp: loadStore_def)
  from assms have lb: "loadBoard parse raw = None"
    by (auto simp: loadBoard_def)
  have init: "tm_initialBoard parse raw now = tm_emptyBoard now"
    "tdm_initialBoard parse raw now = tdm_emptyBoard now"
    "pro_initialBoard parse raw now = pro_emptyBoard now"
    by (simp_all add: tm_initialBoard_def tdm_initialBoard_def pro_initialBoard_def ls lb)
  have empty: "tasks (tm_emptyBoard now) = Map.empty" "tasks (tdm_emptyBoard now) = Map.empty"
    "tasks (pro_emptyBoard now) = Map.empty"
    by (simp_all add: tm_emptyBoard_def tdm_emptyBoard_def pro_emptyBoard_def)
  have ord: "order (tm_emptyBoard now) = [(''todo'', []), (''inprogress'', []), (''done'', [])]"
    "order (tdm_emptyBoard now) = [(''todo'', []), (''inprogress'', []), (''done'', [])]"
    "order (pro_emptyBoard now) = [(''todo'', []), (''inprogress'', []), (''done'', [])]"
    by (simp_all add: tm_emptyBoard_def tdm_emptyBoard_def pro_emptyBoard_def
        DEFAULT_COLUMNS_def pro_DEFAULT_COLUMNS_def)
  have cols: "map fst (columns (tm_emptyBoard now)) = [''todo'', ''inprogress'', ''done'']"
    "map fst (columns (tdm_emptyBoard now)) = [''todo'', ''inprogress'', ''done'']"
    "map fst (columns (pro_emptyBoard now)) = [''todo'', ''inprogress'', ''done'']"
    by (simp_all add: tm_emptyBoard_def tdm_emptyBoard_def pro_emptyBoard_def
        DEFAULT_COLUMNS_def pro_DEFAULT_COLUMNS_def)
  from init empty ord cols show ?thesis by simp
qed

text \<open>
  The theorem at a payload on which the parser throws; the parser accepts only the
  payload \<^verbatim>\<open>null\<close>.
\<close>

theorem initialBoard_falls_back_witness:
  "tm_initialBoard (\<lambda>s. if s = ''null'' then Parsed None else SyntaxError) (Some ''{oops'') ''t1''
     = tm_emptyBoard ''t1''
   \<and> pro_initialBoard (\<lambda>s. if s = ''null'' then Parsed None else SyntaxError) (Some ''{oops'') ''t1''
     = pro_emptyBoard ''t1''
   \<and> order (pro_emptyBoard ''t1'') = [(''todo'', []), (''inprogress'', []), (''done'', [])]"
  using initialBoard_falls_back_to_emptyBoard
    [of "Some ''{oops''" "\<lambda>s. if s = ''null'' then Parsed None else SyntaxError" "''t1''"]
  by simp

section \<open>Deleting a task: what is removed and what is kept\<close>

text \<open>
  Claim C10, the frame of \<^verbatim>\<open>deleteTask\<close>. In each of the three prototypes, the board held
  after deleting the task \<open>tid\<close> has the record of every other task as it was, and the
  order list of every column is either the list as it was or that list with the
  occurrences of \<open>tid\<close> filtered out: nothing but occurrences of \<open>tid\<close> is removed, and the
  ids that remain keep their relative order.
\<close>

theorem deleteTask_frame:
  assumes "k \<noteq> tid"
  shows "tasks (board_after b (tdm_deleteTask t_ts b tid)) k = tasks b k
       \<and> tasks (board_after b (tm_deleteTask confirmed t_ts b tid)) k = tasks b k
       \<and> tasks (pro_deleteTask confirmed t_ts b tid) k = tasks b k
       \<and> (order_or_empty (order (board_after b (tdm_deleteTask t_ts b tid))) c
              = order_or_empty (order b) c
          \<or> order_or_empty (order (board_after b (tdm_deleteTask t_ts b tid))) c
              = filter (\<lambda>x. x \<noteq> tid) (order_or_empty (order b) c))
       \<and> (order_or_empty (order (board_after b (tm_deleteTask confirmed t_ts b tid))) c
              = order_or_empty (order b) c
          \<or> order_or_empty (order (board_after b (tm_deleteTask confirmed t_ts b tid))) c
              = filter (\<lambda>x. x \<noteq> tid) (order_or_empty (order b) c))
       \<and> (order_or_empty (order (pro_deleteTask confirmed t_ts b tid)) c = order_or_empty (order b) c
          \<or> order_or_empty (order (pro_deleteTask confirmed t_ts b tid)) c
              = filter (\<lambda>x. x \<noteq> tid) (order_or_empty (order b) c))"
proof -
  have t1: "tasks (board_after b (tdm_deleteTask t_ts b tid)) k = tasks b k"
    using assms by (simp add: tdm_deleteTask_def Let_def board_after_def split: sum.splits)
  have t2: "tasks (board_after b (tm_deleteTask confirmed t_ts b tid)) k = tasks b k"
    using assms by (simp add: tm_deleteTask_def Let_def board_after_def split: sum.splits)
  have t3: "tasks (pro_deleteTask confirmed t_ts b tid) k = tasks b k"
    using assms by (simp add: pro_deleteTask_def)
  have o1: "order_or_empty (order (board_after b (tdm_deleteTask t_ts b tid))) c
              = order_or_empty (order b) c
          \<or> order_or_empty (order (board_after b (tdm_deleteTask t_ts b tid))) c
              = filter (\<lambda>x. x \<noteq> tid) (order_or_empty (order b) c)"
    by (auto simp: tdm_deleteTask_def Let_def board_after_def order_or_empty_update
        split: sum.splits dest: order_list_Inr)
  have o2: "order_or_empty (order (board_after b (tm_deleteTask confirmed t_ts b tid))) c
              = order_or_empty (order b) c
          \<or> order_or_empty (order (board_after b (tm_deleteTask confirmed t_ts b tid))) c
              = filter (\<lambda>x. x \<noteq> tid) (order_or_empty (order b) c)"
    by (auto simp: tm_deleteTask_def Let_def board_after_def order_or_empty_update
        split: sum.splits dest: order_list_Inr)
  have o3: "order_or_empty (order (pro_deleteTask confirmed t_ts b tid)) c = order_or_empty (order b) c
          \<or> order_or_empty (order (pro_deleteTask confirmed t_ts b tid)) c
              = filter (\<lambda>x. x \<noteq> tid) (order_or_empty (order b) c)"
    by (simp add: pro_deleteTask_def order_or_empty_map_filter)
  from t1 t2 t3 o1 o2 o3 show ?thesis by blast
qed

text \<open>
  The theorem on the two-column board, deleting \<^verbatim>\<open>A\<close> and looking at task \<^verbatim>\<open>B\<close> and at
  the column \<^verbatim>\<open>todo\<close>: \<^verbatim>\<open>B\<close> keeps its record, and \<^verbatim>\<open>todo\<close> goes from \<^verbatim>\<open>[A, B]\<close> to \<^verbatim>\<open>[B]\<close>.
\<close>

theorem deleteTask_frame_witness:
  "tasks (pro_deleteTask True ''t1'' (two_column_board ''status'') ''A'') ''B''
     = Some (mk_task ''status'' ''B'' ''todo'')
   \<and> tasks (board_after (two_column_board ''columnId'')
              (tm_deleteTask True ''t1'' (two_column_board ''columnId'') ''A'')) ''B''
     = Some (mk_task ''columnId'' ''B'' ''todo'')
   \<and> order_or_empty (order (pro_deleteTask True ''t1'' (two_column_board ''status'') ''A'')) ''todo''
     = [''B'']"
proof -
  have ne: "''B'' \<noteq> ''A''" by simp
  have old: "tasks (two_column_board ''status'') ''B'' = Some (mk_task ''status'' ''B'' ''todo'')"
    "tasks (two_column_board ''columnId'') ''B'' = Some (mk_task ''columnId'' ''B'' ''todo'')"
    by (simp_all add: two_column_board_def)
  have new: "order_or_empty (order (pro_deleteTask True ''t1'' (two_column_board ''status'') ''A'')) ''todo''
     = [''B'']"
    by (simp add: pro_deleteTask_def board_defs js_defs)
  from deleteTask_frame [OF ne, of "two_column_board ''status''" "''t1''" True "''todo''"]
    deleteTask_frame [OF ne, of "two_column_board ''columnId''" "''t1''" True "''todo''"]
  show ?thesis by (simp add: old new)
qed

text \<open>
  Claim C5, as amended. Deleting a task that is a key of \<^verbatim>\<open>tasks\<close> (and confirming the
  dialog) removes it from \<^verbatim>\<open>tasks\<close> in the Pro variant, which scans every column:
  afterwards the id occurs in no order list at all. taskmaster and taskdragmaster filter
  the order list of the one column the task records in \<^verbatim>\<open>columnId\<close>. When
  \<^verbatim>\<open>board.order[columnId]\<close> is an array or is missing, the task is removed from \<^verbatim>\<open>tasks\<close>,
  the id is gone from that column's list, and the entry of every other column is what it
  was. When the recorded \<^verbatim>\<open>columnId\<close> is a name that \<^verbatim>\<open>board.order\<close> inherits, they throw a
  \<^verbatim>\<open>TypeError\<close> and nothing is removed.
\<close>

theorem deleteTask_removes_task:
  assumes "tasks b tid = Some rec"
  shows "tasks (pro_deleteTask True t_ts b tid) tid = None
       \<and> occurrences (pro_deleteTask True t_ts b tid) tid = 0
       \<and> (\<forall>c. tid \<notin> set (order_or_empty (order (pro_deleteTask True t_ts b tid)) c))
       \<and> (order_get (order b) (prop_key (get_field rec ''columnId'')) \<noteq> Inherited \<longrightarrow>
            \<not> isl (tm_deleteTask True t_ts b tid)
          \<and> tasks (board_after b (tm_deleteTask True t_ts b tid)) tid = None
          \<and> tid \<notin> set (order_or_empty (order (board_after b (tm_deleteTask True t_ts b tid)))
                         (prop_key (get_field rec ''columnId'')))
          \<and> (\<forall>c. c \<noteq> prop_key (get_field rec ''columnId'') \<longrightarrow>
                 map_of (order (board_after b (tm_deleteTask True t_ts b tid))) c = map_of (order b) c)
          \<and> \<not> isl (tdm_deleteTask t_ts b tid)
          \<and> tasks (board_after b (tdm_deleteTask t_ts b tid)) tid = None
          \<and> tid \<notin> set (order_or_empty (order (board_after b (tdm_deleteTask t_ts b tid)))
                         (prop_key (get_field rec ''columnId'')))
          \<and> (\<forall>c. c \<noteq> prop_key (get_field rec ''columnId'') \<longrightarrow>
                 map_of (order (board_after b (tdm_deleteTask t_ts b tid))) c = map_of (order b) c))
       \<and> (order_get (order b) (prop_key (get_field rec ''columnId'')) = Inherited \<longrightarrow>
            tm_deleteTask True t_ts b tid = Inl TypeError
          \<and> tdm_deleteTask t_ts b tid = Inl TypeError)"
proof -
  let ?key = "prop_key (get_field rec ''columnId'')"
  have own: "obj_get (tasks b) tid = Own rec" using assms by (rule obj_get_Some)
  have pr: "present (obj_get (tasks b) tid)" by (simp add: own present_def)
  have fld: "opt_field (obj_get (tasks b) tid) ''columnId'' = get_field rec ''columnId''"
    by (simp add: own opt_field_def)
  have p1: "tasks (pro_deleteTask True t_ts b tid) tid = None"
    by (simp add: pro_deleteTask_def pr)
  have po: "order (pro_deleteTask True t_ts b tid)
              = map (\<lambda>(k, xs). (k, filter (\<lambda>x. x \<noteq> tid) xs)) (order b)"
    by (simp add: pro_deleteTask_def pr)
  have p2: "occurrences (pro_deleteTask True t_ts b tid) tid = 0"
    by (simp only: occurrences_def po occurrences_filter_out)
  have p3: "tid \<notin> set (order_or_empty (order (pro_deleteTask True t_ts b tid)) c)" for c
    by (simp add: po order_or_empty_map_filter)
  have ok: "\<not> isl (tm_deleteTask True t_ts b tid)
          \<and> tasks (board_after b (tm_deleteTask True t_ts b tid)) tid = None
          \<and> tid \<notin> set (order_or_empty (order (board_after b (tm_deleteTask True t_ts b tid))) ?key)
          \<and> (\<forall>c. c \<noteq> ?key \<longrightarrow>
                 map_of (order (board_after b (tm_deleteTask True t_ts b tid))) c = map_of (order b) c)
          \<and> \<not> isl (tdm_deleteTask t_ts b tid)
          \<and> tasks (board_after b (tdm_deleteTask t_ts b tid)) tid = None
          \<and> tid \<notin> set (order_or_empty (order (board_after b (tdm_deleteTask t_ts b tid))) ?key)
          \<and> (\<forall>c. c \<noteq> ?key \<longrightarrow>
                 map_of (order (board_after b (tdm_deleteTask t_ts b tid))) c = map_of (order b) c)"
    if plain: "order_get (order b) ?key \<noteq> Inherited"
  proof -
    have ol: "order_list (order b) ?key = Inr (order_or_empty (order b) ?key)"
      using plain by (rule order_list_eq)
    have m: "tm_deleteTask True t_ts b tid
        = Inr (b\<lparr> tasks := (tasks b)(tid := None),
                  order := AList.update ?key (filter (\<lambda>x. x \<noteq> tid) (order_or_empty (order b) ?key))
                             (order b),
                  ts := t_ts \<rparr>)"
      by (simp add: tm_deleteTask_def Let_def pr fld ol)
    have d: "tdm_deleteTask t_ts b tid
        = Inr (b\<lparr> tasks := (tasks b)(tid := None),
                  order := AList.update ?key (filter (\<lambda>x. x \<noteq> tid) (order_or_empty (order b) ?key))
                             (order b),
                  ts := t_ts \<rparr>)"
      by (simp add: tdm_deleteTask_def Let_def pr fld ol)
    show ?thesis
      by (simp add: m d board_after_def order_or_empty_update update_conv')
  qed
  have thrown: "tm_deleteTask True t_ts b tid = Inl TypeError \<and> tdm_deleteTask t_ts b tid = Inl TypeError"
    if inh: "order_get (order b) ?key = Inherited"
    by (simp add: tm_deleteTask_def tdm_deleteTask_def Let_def pr fld order_list_Inherited [OF inh])
  from p1 p2 p3 ok thrown show ?thesis by blast
qed

text \<open>
  The theorem on the drifted board (Pro variant) and on the two-column board
  (taskmaster), deleting \<^verbatim>\<open>A\<close>.
\<close>

theorem deleteTask_removes_task_witness:
  "tasks (pro_deleteTask True ''t1'' (drifted_board ''status'') ''A'') ''A'' = None
   \<and> occurrences (pro_deleteTask True ''t1'' (drifted_board ''status'') ''A'') ''A'' = 0
   \<and> \<not> isl (tm_deleteTask True ''t1'' (two_column_board ''columnId'') ''A'')
   \<and> tasks (board_after (two_column_board ''columnId'')
              (tm_deleteTask True ''t1'' (two_column_board ''columnId'') ''A'')) ''A'' = None
   \<and> ''A'' \<notin> set (order_or_empty (order (board_after (two_column_board ''columnId'')
              (tm_deleteTask True ''t1'' (two_column_board ''columnId'') ''A''))) ''todo'')
   \<and> map_of (order (board_after (two_column_board ''columnId'')
              (tm_deleteTask True ''t1'' (two_column_board ''columnId'') ''A''))) ''done'' = Some [''C'']"
proof -
  have pre1: "tasks (drifted_board ''status'') ''A'' = Some (mk_task ''status'' ''A'' ''todo'')"
    by (simp add: board_defs)
  have pre2: "tasks (two_column_board ''columnId'') ''A'' = Some (mk_task ''columnId'' ''A'' ''todo'')"
    by (simp add: board_defs)
  have key: "prop_key (get_field (mk_task ''columnId'' ''A'' ''todo'') ''columnId'') = ''todo''"
    by (simp add: mk_task_def get_field_def prop_key_def)
  have plain: "order_get (order (two_column_board ''columnId'')) ''todo'' \<noteq> Inherited"
    by (simp add: two_column_board_def order_get_def obj_get_def)
  have old: "map_of (order (two_column_board ''columnId'')) ''done'' = Some [''C'']"
    by (simp add: board_defs)
  from deleteTask_removes_task [OF pre1, of "''t1''"] deleteTask_removes_task [OF pre2, of "''t1''"]
  show ?thesis by (simp add: key plain old)
qed

text \<open>
  The claim as it was stated fails for taskmaster and taskdragmaster on the drifted board:
  task \<^verbatim>\<open>A\<close> records \<^verbatim>\<open>todo\<close> and is listed in \<^verbatim>\<open>done\<close>; deleting \<^verbatim>\<open>A\<close> returns normally,
  and the id is still in the order list of \<^verbatim>\<open>done\<close>.
\<close>

theorem deleteTask_recorded_column_only_counterexample:
  "tasks (drifted_board ''columnId'') ''A'' \<noteq> None
   \<and> \<not> isl (tm_deleteTask True ''t1'' (drifted_board ''columnId'') ''A'')
   \<and> ''A'' \<in> set (order_or_empty (order (board_after (drifted_board ''columnId'')
              (tm_deleteTask True ''t1'' (drifted_board ''columnId'') ''A''))) ''done'')
   \<and> \<not> isl (tdm_deleteTask ''t1'' (drifted_board ''columnId'') ''A'')
   \<and> ''A'' \<in> set (order_or_empty (order (board_after (drifted_board ''columnId'')
              (tdm_deleteTask ''t1'' (drifted_board ''columnId'') ''A''))) ''done'')"
  by (simp add: tm_deleteTask_def tdm_deleteTask_def board_after_def board_defs js_defs Let_def)

section \<open>Creating and updating: no validation and no not-found error\<close>

text \<open>
  Claim C7, as amended. \<^verbatim>\<open>saveTask\<close> is the one handler for creating and for editing, and it has
  no error path. When the partial carries a non-empty id for which \<^verbatim>\<open>board.tasks[id]\<close> is
  missing (the id is not a key of \<^verbatim>\<open>tasks\<close>, and not a name that \<^verbatim>\<open>tasks\<close> inherits), the
  taskmaster and Pro variants treat the request as a creation: the partial is stored under
  that id (with \<^verbatim>\<open>id\<close>, \<^verbatim>\<open>updatedAt\<close> and \<^verbatim>\<open>createdAt\<close> set, and in the Pro variant \<^verbatim>\<open>status\<close>
  defaulting to \<^verbatim>\<open>todo\<close>), the id is put at the head of \<^verbatim>\<open>order.todo\<close>, and the records of
  all other tasks are left as they were.
\<close>

theorem saveTask_unknown_id_creates:
  assumes "get_field p ''id'' = Str i" and "i \<noteq> []" and "obj_get (tasks b) i = Missing"
  shows "tasks (tm_saveTask uuid t_upd t_cre t_ts b p) i
           = Some (p(''id'' \<mapsto> Str i, ''updatedAt'' \<mapsto> Str t_upd, ''createdAt'' \<mapsto> Str t_cre))
       \<and> order_or_empty (order (tm_saveTask uuid t_upd t_cre t_ts b p)) ''todo''
           = i # order_or_empty (order b) ''todo''
       \<and> (\<forall>k. k \<noteq> i \<longrightarrow> tasks (tm_saveTask uuid t_upd t_cre t_ts b p) k = tasks b k)
       \<and> tasks (pro_saveTask uuid t_upd t_cre t_ts b p) i
           = Some (p(''id'' \<mapsto> Str i, ''updatedAt'' \<mapsto> Str t_upd, ''createdAt'' \<mapsto> Str t_cre,
                     ''status'' \<mapsto> js_or (get_field p ''status'') (Str ''todo'')))
       \<and> order_or_empty (order (pro_saveTask uuid t_upd t_cre t_ts b p)) ''todo''
           = i # order_or_empty (order b) ''todo''
       \<and> (\<forall>k. k \<noteq> i \<longrightarrow> tasks (pro_saveTask uuid t_upd t_cre t_ts b p) k = tasks b k)"
proof -
  have tr: "truthy (get_field p ''id'')" using assms by (simp add: truthy_def)
  have key: "prop_key (js_or (get_field p ''id'') (Str uuid)) = i"
    using assms by (simp add: js_or_def truthy_def prop_key_def)
  have pk: "prop_key (get_field p ''id'') = i" using assms by (simp add: prop_key_def)
  have cre: "js_or (opt_field Missing ''createdAt'') (Str t_cre) = Str t_cre"
    by (simp add: js_or_def opt_field_def truthy_def)
  have st: "js_or (js_or (get_field p ''status'') (opt_field Missing ''status'')) (Str ''todo'')
            = js_or (get_field p ''status'') (Str ''todo'')"
    by (simp add: js_or_def opt_field_def truthy_def)
  have sp: "spread Missing ++ p = p" by (simp add: spread_def)
  have np: "\<not> present (Missing :: task lookup)" by (simp add: present_def)
  have none: "tasks b i = None"
    using assms(3) by (simp add: obj_get_def split: option.splits)
  have m1: "tasks (tm_saveTask uuid t_upd t_cre t_ts b p) i
           = Some (p(''id'' \<mapsto> Str i, ''updatedAt'' \<mapsto> Str t_upd, ''createdAt'' \<mapsto> Str t_cre))"
    by (simp add: tm_saveTask_def Let_def key pk assms(3) np cre sp)
  have m2: "order_or_empty (order (tm_saveTask uuid t_upd t_cre t_ts b p)) ''todo''
           = i # order_or_empty (order b) ''todo''"
    by (simp add: tm_saveTask_def Let_def key pk assms(3) np order_or_empty_update)
  have m3: "tasks (tm_saveTask uuid t_upd t_cre t_ts b p) k = tasks b k" if "k \<noteq> i" for k
    using that by (simp add: tm_saveTask_def Let_def key pk assms(3) np)
  have p1: "tasks (pro_saveTask uuid t_upd t_cre t_ts b p) i
           = Some (p(''id'' \<mapsto> Str i, ''updatedAt'' \<mapsto> Str t_upd, ''createdAt'' \<mapsto> Str t_cre,
                     ''status'' \<mapsto> js_or (get_field p ''status'') (Str ''todo'')))"
    by (simp add: pro_saveTask_def Let_def key pk assms(3) np cre sp st)
  have p2: "order_or_empty (order (pro_saveTask uuid t_upd t_cre t_ts b p)) ''todo''
           = i # order_or_empty (order b) ''todo''"
    by (simp add: pro_saveTask_def Let_def key pk assms(3) np order_or_empty_update)
  have p3: "tasks (pro_saveTask uuid t_upd t_cre t_ts b p) k = tasks b k" if "k \<noteq> i" for k
    using that by (simp add: pro_saveTask_def Let_def key pk assms(3) np)
  from m1 m2 m3 p1 p2 p3 show ?thesis by blast
qed

text \<open>
  The theorem on the one-column board, for a partial that carries the unknown id \<^verbatim>\<open>Q\<close>.
\<close>

theorem saveTask_unknown_id_creates_witness:
  "(\<exists>t. tasks (tm_saveTask ''U'' ''t1'' ''t2'' ''t3'' (abc_board ''columnId'')
                [''id'' \<mapsto> Str ''Q'', ''title'' \<mapsto> Str ''x'']) ''Q'' = Some t)
   \<and> order_or_empty (order (tm_saveTask ''U'' ''t1'' ''t2'' ''t3'' (abc_board ''columnId'')
                [''id'' \<mapsto> Str ''Q'', ''title'' \<mapsto> Str ''x''])) ''todo''
       = [''Q'', ''A'', ''B'', ''C'']
   \<and> order_or_empty (order (pro_saveTask ''U'' ''t1'' ''t2'' ''t3'' (abc_board ''status'')
                [''id'' \<mapsto> Str ''Q'', ''title'' \<mapsto> Str ''x''])) ''todo''
       = [''Q'', ''A'', ''B'', ''C'']"
proof -
  have h1: "get_field [''id'' \<mapsto> Str ''Q'', ''title'' \<mapsto> Str ''x''] ''id'' = Str ''Q''"
    by (simp add: get_field_def)
  have h2: "''Q'' \<noteq> []" by simp
  have h3: "obj_get (tasks (abc_board ''columnId'')) ''Q'' = Missing"
    "obj_get (tasks (abc_board ''status'')) ''Q'' = Missing"
    by (simp_all add: abc_board_def obj_get_def object_prototype_names_def)
  have old: "order_or_empty (order (abc_board ''columnId'')) ''todo'' = [''A'', ''B'', ''C'']"
    "order_or_empty (order (abc_board ''status'')) ''todo'' = [''A'', ''B'', ''C'']"
    by (simp_all add: abc_board_def order_or_empty_def)
  from saveTask_unknown_id_creates [OF h1 h2 h3(1), of "''U''" "''t1''" "''t2''" "''t3''"]
    saveTask_unknown_id_creates [OF h1 h2 h3(2), of "''U''" "''t1''" "''t2''" "''t3''"]
  show ?thesis by (simp add: old)
qed

text \<open>
  The claim as it was stated (the update fails and the board is unchanged) fails on the
  one-column board: \<^verbatim>\<open>Q\<close> is not a task, and after \<^verbatim>\<open>saveTask({id: "Q", title: "x"})\<close> there is
  a task \<^verbatim>\<open>Q\<close> and \<^verbatim>\<open>order.todo\<close> is \<^verbatim>\<open>[Q, A, B, C]\<close>.
\<close>

theorem saveTask_no_NotFoundError_counterexample:
  "tasks (abc_board ''columnId'') ''Q'' = None
   \<and> tasks (tm_saveTask ''U'' ''t1'' ''t2'' ''t3'' (abc_board ''columnId'')
        [''id'' \<mapsto> Str ''Q'', ''title'' \<mapsto> Str ''x'']) ''Q'' \<noteq> None
   \<and> order (tm_saveTask ''U'' ''t1'' ''t2'' ''t3'' (abc_board ''columnId'')
        [''id'' \<mapsto> Str ''Q'', ''title'' \<mapsto> Str ''x'']) = [(''todo'', [''Q'', ''A'', ''B'', ''C''])]
   \<and> tasks (pro_saveTask ''U'' ''t1'' ''t2'' ''t3'' (abc_board ''status'')
        [''id'' \<mapsto> Str ''Q'', ''title'' \<mapsto> Str ''x'']) ''Q'' \<noteq> None
   \<and> order (pro_saveTask ''U'' ''t1'' ''t2'' ''t3'' (abc_board ''status'')
        [''id'' \<mapsto> Str ''Q'', ''title'' \<mapsto> Str ''x'']) = [(''todo'', [''Q'', ''A'', ''B'', ''C''])]"
  by (simp add: tm_saveTask_def pro_saveTask_def board_defs js_defs Let_def)

text \<open>
  Claim C8, as amended. Creating a task never fails on its title. \<^verbatim>\<open>newTask\<close> (taskdragmaster,
  taskmaster) replaces a missing or empty title by \<^verbatim>\<open>"New task"\<close>; \<^verbatim>\<open>addTask\<close> (taskdragmaster)
  always stores the task \<^verbatim>\<open>newTask({})\<close> and puts its id at the head of \<^verbatim>\<open>order.todo\<close>; and
  \<^verbatim>\<open>saveTask\<close> (taskmaster, Pro), given a partial without an id, stores the title it is given,
  the empty string included, under the fresh id and puts that id at the head of
  \<^verbatim>\<open>order.todo\<close>. (The only check of the title is in the submit handler of the modal form,
  which is not part of the board operations.)
\<close>

theorem create_with_empty_title_is_stored:
  assumes "\<not> truthy (get_field p ''id'')" and "p ''title'' = Some v"
  shows "get_field (tdm_newTask uuid t_cre t_upd p) ''title''
           = (if truthy (get_field p ''title'') then get_field p ''title'' else Str ''New task'')
       \<and> get_field (tm_newTask uuid t_cre t_upd p) ''title''
           = (if truthy (get_field p ''title'') then get_field p ''title'' else Str ''New task'')
       \<and> tasks (tdm_addTask uuid t_cre t_upd t_ts b) uuid = Some (tdm_newTask uuid t_cre t_upd Map.empty)
       \<and> get_field (tdm_newTask uuid t_cre t_upd Map.empty) ''title'' = Str ''New task''
       \<and> order_or_empty (order (tdm_addTask uuid t_cre t_upd t_ts b)) ''todo''
           = uuid # order_or_empty (order b) ''todo''
       \<and> map_option (\<lambda>t. get_field t ''title'') (tasks (tm_saveTask uuid t_upd t_cre t_ts b p) uuid) = Some v
       \<and> order_or_empty (order (tm_saveTask uuid t_upd t_cre t_ts b p)) ''todo''
           = uuid # order_or_empty (order b) ''todo''
       \<and> map_option (\<lambda>t. get_field t ''title'') (tasks (pro_saveTask uuid t_upd t_cre t_ts b p) uuid) = Some v
       \<and> order_or_empty (order (pro_saveTask uuid t_upd t_cre t_ts b p)) ''todo''
           = uuid # order_or_empty (order b) ''todo''"
proof -
  have key: "prop_key (js_or (get_field p ''id'') (Str uuid)) = uuid"
    using assms by (simp add: js_or_def prop_key_def)
  have n1: "get_field (tdm_newTask uuid t_cre t_upd p) ''title''
           = (if truthy (get_field p ''title'') then get_field p ''title'' else Str ''New task'')"
    by (simp add: tdm_newTask_def get_field_def js_or_def)
  have n2: "get_field (tm_newTask uuid t_cre t_upd p) ''title''
           = (if truthy (get_field p ''title'') then get_field p ''title'' else Str ''New task'')"
    by (simp add: tm_newTask_def get_field_def js_or_def)
  have nid: "prop_key (get_field (tdm_newTask uuid t_cre t_upd Map.empty) ''id'') = uuid"
    by (simp add: tdm_newTask_def get_field_def prop_key_def)
  have ncol: "prop_key (get_field (tdm_newTask uuid t_cre t_upd Map.empty) ''columnId'') = ''todo''"
    by (simp add: tdm_newTask_def get_field_def prop_key_def js_or_def truthy_def DEFAULT_COLUMNS_def)
  have a1: "tasks (tdm_addTask uuid t_cre t_upd t_ts b) uuid = Some (tdm_newTask uuid t_cre t_upd Map.empty)"
    by (simp add: tdm_addTask_def Let_def nid)
  have a2: "get_field (tdm_newTask uuid t_cre t_upd Map.empty) ''title'' = Str ''New task''"
    by (simp add: tdm_newTask_def get_field_def js_or_def truthy_def)
  have a3: "order_or_empty (order (tdm_addTask uuid t_cre t_upd t_ts b)) ''todo''
           = uuid # order_or_empty (order b) ''todo''"
    by (simp add: tdm_addTask_def Let_def nid ncol order_or_empty_update)
  have s1: "map_option (\<lambda>t. get_field t ''title'') (tasks (tm_saveTask uuid t_upd t_cre t_ts b p) uuid) = Some v"
  proof -
    have "tasks (tm_saveTask uuid t_upd t_cre t_ts b p) uuid
            = Some ((spread (obj_get (tasks b) uuid) ++ p)(''id'' \<mapsto> Str uuid, ''updatedAt'' \<mapsto> Str t_upd,
                 ''createdAt'' \<mapsto> js_or (opt_field (obj_get (tasks b) uuid) ''createdAt'') (Str t_cre)))"
      using assms(1) by (simp add: tm_saveTask_def Let_def key)
    then show ?thesis using assms(2) by (simp add: get_field_def)
  qed
  have s2: "order_or_empty (order (tm_saveTask uuid t_upd t_cre t_ts b p)) ''todo''
           = uuid # order_or_empty (order b) ''todo''"
    using assms by (simp add: tm_saveTask_def Let_def key order_or_empty_update)
  have s3: "map_option (\<lambda>t. get_field t ''title'') (tasks (pro_saveTask uuid t_upd t_cre t_ts b p) uuid) = Some v"
  proof -
    have "tasks (pro_saveTask uuid t_upd t_cre t_ts b p) uuid
            = Some ((spread (obj_get (tasks b) uuid) ++ p)(''id'' \<mapsto> Str uuid, ''updatedAt'' \<mapsto> Str t_upd,
                 ''createdAt'' \<mapsto> js_or (opt_field (obj_get (tasks b) uuid) ''createdAt'') (Str t_cre),
                 ''status'' \<mapsto> js_or (js_or (get_field p ''status'')
                                            (opt_field (obj_get (tasks b) uuid) ''status'')) (Str ''todo'')))"
      using assms(1) by (simp add: pro_saveTask_def Let_def key)
    then show ?thesis using assms(2) by (simp add: get_field_def)
  qed
  have s4: "order_or_empty (order (pro_saveTask uuid t_upd t_cre t_ts b p)) ''todo''
           = uuid # order_or_empty (order b) ''todo''"
    using assms by (simp add: pro_saveTask_def Let_def key order_or_empty_update)
  from n1 n2 a1 a2 a3 s1 s2 s3 s4 show ?thesis by blast
qed

text \<open>
  The theorem on the empty boards, for the partial \<^verbatim>\<open>{title: ""}\<close>.
\<close>

theorem create_with_empty_title_witness:
  "get_field (tm_newTask ''U'' ''t1'' ''t2'' [''title'' \<mapsto> Str []]) ''title'' = Str ''New task''
   \<and> tasks (tdm_addTask ''U'' ''t1'' ''t2'' ''t3'' (tdm_emptyBoard ''t0'')) ''U''
       = Some (tdm_newTask ''U'' ''t1'' ''t2'' Map.empty)
   \<and> map_option (\<lambda>t. get_field t ''title'')
         (tasks (tm_saveTask ''U'' ''t2'' ''t1'' ''t3'' (tm_emptyBoard ''t0'')
                       [''title'' \<mapsto> Str []]) ''U'') = Some (Str [])
   \<and> order_or_empty (order (pro_saveTask ''U'' ''t2'' ''t1'' ''t3'' (pro_emptyBoard ''t0'')
                       [''title'' \<mapsto> Str []])) ''todo'' = [''U'']"
proof -
  let ?P = "[''title'' \<mapsto> Str []] :: task"
  have h1: "\<not> truthy (get_field ?P ''id'')"
    by (simp add: truthy_def get_field_def)
  have h2: "?P ''title'' = Some (Str [])" by simp
  have tr: "truthy (get_field ?P ''title'') = False"
    by (simp add: truthy_def get_field_def)
  have old: "order_or_empty (order (pro_emptyBoard ''t0'')) ''todo'' = []"
    by (simp add: pro_emptyBoard_def pro_DEFAULT_COLUMNS_def order_or_empty_def)
  note A = create_with_empty_title_is_stored [OF h1 h2, of "''U''" "''t1''" "''t2''" "''t3''" "tdm_emptyBoard ''t0''"]
  note B = create_with_empty_title_is_stored [OF h1 h2, of "''U''" "''t1''" "''t2''" "''t3''" "tm_emptyBoard ''t0''"]
  note C = create_with_empty_title_is_stored [OF h1 h2, of "''U''" "''t1''" "''t2''" "''t3''" "pro_emptyBoard ''t0''"]
  from A have "get_field (tm_newTask ''U'' ''t1'' ''t2'' ?P) ''title''
      = (if truthy (get_field ?P ''title'') then get_field ?P ''title'' else Str ''New task'')"
    by blast
  then have c1: "get_field (tm_newTask ''U'' ''t1'' ''t2'' ?P) ''title'' = Str ''New task''"
    by (simp only: tr if_False)
  from A have c2: "tasks (tdm_addTask ''U'' ''t1'' ''t2'' ''t3'' (tdm_emptyBoard ''t0'')) ''U''
       = Some (tdm_newTask ''U'' ''t1'' ''t2'' Map.empty)"
    by blast
  from B have c3: "map_option (\<lambda>t. get_field t ''title'')
         (tasks (tm_saveTask ''U'' ''t2'' ''t1'' ''t3'' (tm_emptyBoard ''t0'') ?P) ''U'') = Some (Str [])"
    by blast
  from C have "order_or_empty (order (pro_saveTask ''U'' ''t2'' ''t1'' ''t3'' (pro_emptyBoard ''t0'') ?P)) ''todo''
       = ''U'' # order_or_empty (order (pro_emptyBoard ''t0'')) ''todo''"
    by blast
  then have c4: "order_or_empty (order (pro_saveTask ''U'' ''t2'' ''t1'' ''t3'' (pro_emptyBoard ''t0'') ?P)) ''todo''
       = [''U'']"
    by (simp only: old)
  from c1 c2 c3 c4 show ?thesis by blast
qed

text \<open>
  The claim as it was stated (creation with an empty title fails and the board is
  unchanged) fails on the empty board: \<^verbatim>\<open>newTask({title: ""})\<close> has the title \<^verbatim>\<open>"New task"\<close>,
  and \<^verbatim>\<open>addTask\<close> and \<^verbatim>\<open>saveTask({title: ""})\<close> both add the task \<^verbatim>\<open>U\<close> and put it in
  \<^verbatim>\<open>order.todo\<close>.
\<close>

theorem create_no_ValidationError_counterexample:
  "get_field (tdm_newTask ''U'' ''t1'' ''t2'' [''title'' \<mapsto> Str []]) ''title'' = Str ''New task''
   \<and> tasks (tdm_emptyBoard ''t0'') ''U'' = None
   \<and> tasks (tdm_addTask ''U'' ''t1'' ''t2'' ''t3'' (tdm_emptyBoard ''t0'')) ''U'' \<noteq> None
   \<and> order (tdm_addTask ''U'' ''t1'' ''t2'' ''t3'' (tdm_emptyBoard ''t0''))
       = [(''todo'', [''U'']), (''inprogress'', []), (''done'', [])]
   \<and> tasks (tm_saveTask ''U'' ''t1'' ''t2'' ''t3'' (tm_emptyBoard ''t0'') [''title'' \<mapsto> Str []]) ''U''
       \<noteq> None
   \<and> order (tm_saveTask ''U'' ''t1'' ''t2'' ''t3'' (tm_emptyBoard ''t0'') [''title'' \<mapsto> Str []])
       = [(''todo'', [''U'']), (''inprogress'', []), (''done'', [])]"
  by (simp add: tdm_newTask_def tdm_addTask_def tm_saveTask_def tdm_emptyBoard_def tm_emptyBoard_def
      DEFAULT_COLUMNS_def js_defs Let_def)

section \<open>Drops on a card\<close>

text \<open>
  Claim C4. When the drop target is the id of a task and \<^verbatim>\<open>board.order[over.id]\<close> is falsy
  (the target is not a column id), the taskmaster and Pro handlers take as destination the
  column that the target task records (\<^verbatim>\<open>columnId\<close>, respectively \<^verbatim>\<open>status\<close>). When
  \<^verbatim>\<open>board.order\<close> holds an array or nothing under the columns involved, the handler returns,
  the dragged task's column field is set to the destination, the dragged id is in the
  destination column's order list afterwards, and when the destination is not the source
  column the dragged id is no longer in the source column's list.
\<close>

theorem handleDragEnd_card_target_column:
  assumes "tasks b o_id = Some ot" and "order_get (order b) o_id = Missing"
  shows "tm_toColId b a o_id = get_field ot ''columnId''
       \<and> pro_destCol b a o_id = get_field ot ''status''
       \<and> (order_get (order b) (prop_key (tm_fromColId b a)) \<noteq> Inherited
            \<and> order_get (order b) (prop_key (get_field ot ''columnId'')) \<noteq> Inherited \<longrightarrow>
              \<not> isl (tm_handleDragEnd t_upd t_ts b a (Some o_id))
            \<and> map_option (\<lambda>t. get_field t ''columnId'')
                 (tasks (board_after b (tm_handleDragEnd t_upd t_ts b a (Some o_id))) a)
                = Some (get_field ot ''columnId'')
            \<and> a \<in> set (order_or_empty
                          (order (board_after b (tm_handleDragEnd t_upd t_ts b a (Some o_id))))
                          (prop_key (get_field ot ''columnId'')))
            \<and> (prop_key (tm_fromColId b a) \<noteq> prop_key (get_field ot ''columnId'') \<longrightarrow>
                 a \<notin> set (order_or_empty
                             (order (board_after b (tm_handleDragEnd t_upd t_ts b a (Some o_id))))
                             (prop_key (tm_fromColId b a)))))
       \<and> (order_get (order b) (prop_key (get_field ot ''status'')) \<noteq> Inherited \<longrightarrow>
              \<not> isl (pro_handleDragEnd t_upd t_ts b a (Some o_id))
            \<and> map_option (\<lambda>t. get_field t ''status'')
                 (tasks (board_after b (pro_handleDragEnd t_upd t_ts b a (Some o_id))) a)
                = Some (get_field ot ''status'')
            \<and> a \<in> set (order_or_empty
                          (order (board_after b (pro_handleDragEnd t_upd t_ts b a (Some o_id))))
                          (prop_key (get_field ot ''status'')))
            \<and> (prop_key (pro_sourceCol (order b) a) \<noteq> prop_key (get_field ot ''status'') \<longrightarrow>
                 a \<notin> set (order_or_empty
                             (order (board_after b (pro_handleDragEnd t_upd t_ts b a (Some o_id))))
                             (prop_key (pro_sourceCol (order b) a)))))"
proof -
  have nk: "\<not> has_key (order b) o_id" using assms(2) by (rule has_key_Missing)
  have own: "obj_get (tasks b) o_id = Own ot" using assms(1) by (rule obj_get_Some)
  have m0: "tm_toColId b a o_id = get_field ot ''columnId''"
    by (simp add: tm_toColId_def nk own present_def opt_field_def)
  have p0: "pro_destCol b a o_id = get_field ot ''status''"
    by (simp add: pro_destCol_def nk own present_def opt_field_def)
  have tm: "\<not> isl (tm_handleDragEnd t_upd t_ts b a (Some o_id))
            \<and> map_option (\<lambda>t. get_field t ''columnId'')
                 (tasks (board_after b (tm_handleDragEnd t_upd t_ts b a (Some o_id))) a)
                = Some (get_field ot ''columnId'')
            \<and> a \<in> set (order_or_empty
                          (order (board_after b (tm_handleDragEnd t_upd t_ts b a (Some o_id))))
                          (prop_key (get_field ot ''columnId'')))
            \<and> (prop_key (tm_fromColId b a) \<noteq> prop_key (get_field ot ''columnId'') \<longrightarrow>
                 a \<notin> set (order_or_empty
                             (order (board_after b (tm_handleDragEnd t_upd t_ts b a (Some o_id))))
                             (prop_key (tm_fromColId b a))))"
    if f: "order_get (order b) (prop_key (tm_fromColId b a)) \<noteq> Inherited"
      and t: "order_get (order b) (prop_key (get_field ot ''columnId'')) \<noteq> Inherited"
  proof -
    from t have t': "order_get (order b) (prop_key (tm_toColId b a o_id)) \<noteq> Inherited"
      by (simp add: m0)
    have r: "\<not> isl (tm_handleDragEnd t_upd t_ts b a (Some o_id))"
      using f t' by (rule tm_handleDragEnd_returns)
    have c: "map_option (\<lambda>t. get_field t ''columnId'')
                 (tasks (board_after b (tm_handleDragEnd t_upd t_ts b a (Some o_id))) a)
                = Some (get_field ot ''columnId'')"
      by (simp add: tm_handleDragEnd_tasks [OF f t'] m0 get_field_def)
    have i: "a \<in> set (order_or_empty
                          (order (board_after b (tm_handleDragEnd t_upd t_ts b a (Some o_id))))
                          (prop_key (get_field ot ''columnId'')))"
      using tm_handleDragEnd_active_in_dest [OF f t', of t_upd t_ts] by (simp only: m0)
    have s: "a \<notin> set (order_or_empty
                             (order (board_after b (tm_handleDragEnd t_upd t_ts b a (Some o_id))))
                             (prop_key (tm_fromColId b a)))"
      if ne: "prop_key (tm_fromColId b a) \<noteq> prop_key (get_field ot ''columnId'')"
    proof -
      from ne have ne': "prop_key (tm_fromColId b a) \<noteq> prop_key (tm_toColId b a o_id)"
        by (simp add: m0)
      show ?thesis by (simp add: tm_handleDragEnd_source [OF f t' ne'])
    qed
    from r c i s show ?thesis by blast
  qed
  have pro: "\<not> isl (pro_handleDragEnd t_upd t_ts b a (Some o_id))
            \<and> map_option (\<lambda>t. get_field t ''status'')
                 (tasks (board_after b (pro_handleDragEnd t_upd t_ts b a (Some o_id))) a)
                = Some (get_field ot ''status'')
            \<and> a \<in> set (order_or_empty
                          (order (board_after b (pro_handleDragEnd t_upd t_ts b a (Some o_id))))
                          (prop_key (get_field ot ''status'')))
            \<and> (prop_key (pro_sourceCol (order b) a) \<noteq> prop_key (get_field ot ''status'') \<longrightarrow>
                 a \<notin> set (order_or_empty
                             (order (board_after b (pro_handleDragEnd t_upd t_ts b a (Some o_id))))
                             (prop_key (pro_sourceCol (order b) a))))"
    if t: "order_get (order b) (prop_key (get_field ot ''status'')) \<noteq> Inherited"
  proof -
    from t have t': "order_get (order b) (prop_key (pro_destCol b a o_id)) \<noteq> Inherited"
      by (simp add: p0)
    have r: "\<not> isl (pro_handleDragEnd t_upd t_ts b a (Some o_id))"
      using t' by (rule pro_handleDragEnd_returns)
    have c: "map_option (\<lambda>t. get_field t ''status'')
                 (tasks (board_after b (pro_handleDragEnd t_upd t_ts b a (Some o_id))) a)
                = Some (get_field ot ''status'')"
      by (simp add: pro_handleDragEnd_tasks [OF t'] p0 get_field_def)
    have i: "a \<in> set (order_or_empty
                          (order (board_after b (pro_handleDragEnd t_upd t_ts b a (Some o_id))))
                          (prop_key (get_field ot ''status'')))"
      using pro_handleDragEnd_active_in_dest [OF t', of t_upd t_ts] by (simp only: p0)
    have s: "a \<notin> set (order_or_empty
                             (order (board_after b (pro_handleDragEnd t_upd t_ts b a (Some o_id))))
                             (prop_key (pro_sourceCol (order b) a)))"
      if ne: "prop_key (pro_sourceCol (order b) a) \<noteq> prop_key (get_field ot ''status'')"
    proof -
      from ne have ne': "prop_key (pro_sourceCol (order b) a) \<noteq> prop_key (pro_destCol b a o_id)"
        by (simp add: p0)
      show ?thesis by (simp add: pro_handleDragEnd_source [OF t' ne'])
    qed
    from r c i s show ?thesis by blast
  qed
  from m0 p0 tm pro show ?thesis by blast
qed

text \<open>
  The theorem on the two-column board, dragging \<^verbatim>\<open>A\<close> (in \<^verbatim>\<open>todo\<close>) onto the card \<^verbatim>\<open>C\<close> (in
  \<^verbatim>\<open>done\<close>).
\<close>

theorem handleDragEnd_card_target_column_witness:
  "tm_toColId (two_column_board ''columnId'') ''A'' ''C'' = Str ''done''
   \<and> \<not> isl (tm_handleDragEnd ''t1'' ''t2'' (two_column_board ''columnId'') ''A'' (Some ''C''))
   \<and> ''A'' \<in> set (order_or_empty (order (board_after (two_column_board ''columnId'')
          (tm_handleDragEnd ''t1'' ''t2'' (two_column_board ''columnId'') ''A'' (Some ''C'')))) ''done'')
   \<and> ''A'' \<notin> set (order_or_empty (order (board_after (two_column_board ''columnId'')
          (tm_handleDragEnd ''t1'' ''t2'' (two_column_board ''columnId'') ''A'' (Some ''C'')))) ''todo'')
   \<and> pro_destCol (two_column_board ''status'') ''A'' ''C'' = Str ''done''
   \<and> \<not> isl (pro_handleDragEnd ''t1'' ''t2'' (two_column_board ''status'') ''A'' (Some ''C''))
   \<and> ''A'' \<in> set (order_or_empty (order (board_after (two_column_board ''status'')
          (pro_handleDragEnd ''t1'' ''t2'' (two_column_board ''status'') ''A'' (Some ''C'')))) ''done'')
   \<and> ''A'' \<notin> set (order_or_empty (order (board_after (two_column_board ''status'')
          (pro_handleDragEnd ''t1'' ''t2'' (two_column_board ''status'') ''A'' (Some ''C'')))) ''todo'')"
proof -
  have h1: "tasks (two_column_board ''columnId'') ''C'' = Some (mk_task ''columnId'' ''C'' ''done'')"
    "tasks (two_column_board ''status'') ''C'' = Some (mk_task ''status'' ''C'' ''done'')"
    by (simp_all add: two_column_board_def)
  have h2: "order_get (order (two_column_board ''columnId'')) ''C'' = Missing"
    "order_get (order (two_column_board ''status'')) ''C'' = Missing"
    by (simp_all add: two_column_board_def order_get_def obj_get_def object_prototype_names_def)
  have f: "get_field (mk_task ''columnId'' ''C'' ''done'') ''columnId'' = Str ''done''"
    "get_field (mk_task ''status'' ''C'' ''done'') ''status'' = Str ''done''"
    by (simp_all add: mk_task_def get_field_def)
  have src: "prop_key (tm_fromColId (two_column_board ''columnId'') ''A'') = ''todo''"
    "prop_key (pro_sourceCol (order (two_column_board ''status'')) ''A'') = ''todo''"
    by (simp_all add: tm_fromColId_def pro_sourceCol_def board_defs js_defs)
  have k: "prop_key (Str ''done'') = ''done''" by (simp add: prop_key_def)
  have plain: "order_get (order (two_column_board ''columnId'')) ''todo'' \<noteq> Inherited"
    "order_get (order (two_column_board ''columnId'')) ''done'' \<noteq> Inherited"
    "order_get (order (two_column_board ''status'')) ''done'' \<noteq> Inherited"
    by (simp_all add: two_column_board_def order_get_def obj_get_def)
  from handleDragEnd_card_target_column [OF h1(1) h2(1), of "''A''" "''t1''" "''t2''"]
    handleDragEnd_card_target_column [OF h1(2) h2(2), of "''A''" "''t1''" "''t2''"]
  show ?thesis by (simp add: f src k plain)
qed

text \<open>
  Claim C2. Cards are drop targets in the Pro variant only. There, for a board whose one
  column \<^verbatim>\<open>todo\<close> has the order \<^verbatim>\<open>[A, B, C]\<close> (three different ids), where \<^verbatim>\<open>B\<close> is a task that
  records the column \<^verbatim>\<open>todo\<close> and is not a column id, dragging \<^verbatim>\<open>C\<close> onto \<^verbatim>\<open>B\<close> returns a
  board whose order is exactly \<^verbatim>\<open>[A, C, B]\<close>.
\<close>

theorem pro_insert_before_in_same_column:
  assumes "order b = [(''todo'', [idA, idB, idC])]" and "distinct [idA, idB, idC]"
    and "tasks b idB = Some rec" and "get_field rec ''status'' = Str ''todo''"
    and "order_get (order b) idB = Missing"
  shows "\<not> isl (pro_handleDragEnd t_upd t_ts b idC (Some idB))
       \<and> order (board_after b (pro_handleDragEnd t_upd t_ts b idC (Some idB)))
           = [(''todo'', [idA, idC, idB])]"
proof -
  from assms(2) have ne: "idA \<noteq> idB" "idA \<noteq> idC" "idB \<noteq> idC" by simp_all
  have ob: "order_or_empty (order b) ''todo'' = [idA, idB, idC]"
    by (simp add: assms(1) order_or_empty_def)
  have src: "pro_sourceCol (order b) idC = Str ''todo''"
    by (simp add: pro_sourceCol_def assms(1) order_or_empty_def)
  have own: "obj_get (tasks b) idB = Own rec" using assms(3) by (rule obj_get_Some)
  have pr: "present (obj_get (tasks b) idB)" by (simp add: own present_def)
  have dest: "pro_destCol b idC idB = Str ''todo''"
    using has_key_Missing [OF assms(5)] by (simp add: pro_destCol_def own present_def opt_field_def assms(4))
  have k: "prop_key (Str ''todo'') = ''todo''" by (simp add: prop_key_def)
  have ol: "order_list (order b) ''todo'' = Inr [idA, idB, idC]"
    by (simp add: order_list_def order_get_def obj_get_def assms(1))
  have i1: "indexOf [idA, idB, idC] idC = 2" using ne by simp
  have i2: "indexOf [idA, idB, idC] idB = 1" using ne by simp
  have sp: "splice_insert 1 idC (splice_remove1 2 [idA, idB, idC]) = [idA, idC, idB]"
    by (simp add: splice_insert_def splice_remove1_def splice_start_def)
  have res: "pro_handleDragEnd t_upd t_ts b idC (Some idB)
      = Inr (b\<lparr> tasks := (tasks b)(idC \<mapsto> (spread (obj_get (tasks b) idC))
                                  (''status'' \<mapsto> Str ''todo'', ''updatedAt'' \<mapsto> Str t_upd)),
                order := AList.update ''todo'' [idA, idC, idB]
                           (AList.update ''todo'' (filter (\<lambda>x. x \<noteq> idC) [idA, idB, idC]) (order b)),
                ts := t_ts \<rparr>)"
    by (simp add: pro_handleDragEnd_def Let_def src dest k ol pr i1 i2 sp del: indexOf.simps)
  have upd: "AList.update ''todo'' [idA, idC, idB] (order b) = [(''todo'', [idA, idC, idB])]"
    unfolding assms(1) by simp
  show ?thesis by (simp add: res board_after_def upd)
qed

text \<open>The theorem on the one-column board, dragging \<^verbatim>\<open>C\<close> onto the card \<^verbatim>\<open>B\<close>.\<close>

theorem pro_insert_before_witness:
  "\<not> isl (pro_handleDragEnd ''t1'' ''t2'' (abc_board ''status'') ''C'' (Some ''B''))
   \<and> order (board_after (abc_board ''status'')
        (pro_handleDragEnd ''t1'' ''t2'' (abc_board ''status'') ''C'' (Some ''B'')))
       = [(''todo'', [''A'', ''C'', ''B''])]"
proof -
  have h1: "order (abc_board ''status'') = [(''todo'', [''A'', ''B'', ''C''])]"
    by (simp add: abc_board_def)
  have h2: "distinct [''A'', ''B'', ''C'']" by simp
  have h3: "tasks (abc_board ''status'') ''B'' = Some (mk_task ''status'' ''B'' ''todo'')"
    by (simp add: abc_board_def)
  have h4: "get_field (mk_task ''status'' ''B'' ''todo'') ''status'' = Str ''todo''"
    by (simp add: mk_task_def get_field_def)
  have h5: "order_get (order (abc_board ''status'')) ''B'' = Missing"
    by (simp add: abc_board_def order_get_def obj_get_def object_prototype_names_def)
  show ?thesis by (rule pro_insert_before_in_same_column [OF h1 h2 h3 h4 h5])
qed

text \<open>
  Claim C3, as amended. The Pro handler, the only one that receives a card as a drop
  target, does not short-circuit a drop of a card onto itself. For a task \<open>t\<close> that is not
  a column id and whose \<^verbatim>\<open>status\<close> is the column found for it in \<^verbatim>\<open>order\<close>, the handler
  returns, leaves \<^verbatim>\<open>order\<close> as it was, and changes \<^verbatim>\<open>tasks\<close> only at \<open>t\<close>: its \<^verbatim>\<open>status\<close> is
  written again with the same value and its \<^verbatim>\<open>updatedAt\<close> is set to the current time; the
  board's \<^verbatim>\<open>ts\<close> is set as well.
\<close>

theorem pro_self_drop_keeps_order:
  assumes "tasks b t = Some rec" and "order_get (order b) t = Missing"
    and "pro_sourceCol (order b) t = Str c" and "get_field rec ''status'' = Str c"
  shows "\<not> isl (pro_handleDragEnd t_upd t_ts b t (Some t))
       \<and> order (board_after b (pro_handleDragEnd t_upd t_ts b t (Some t))) = order b
       \<and> tasks (board_after b (pro_handleDragEnd t_upd t_ts b t (Some t)))
           = (tasks b)(t \<mapsto> rec(''status'' \<mapsto> Str c, ''updatedAt'' \<mapsto> Str t_upd))
       \<and> ts (board_after b (pro_handleDragEnd t_upd t_ts b t (Some t))) = t_ts"
proof -
  let ?xs = "order_or_empty (order b) c"
  have own: "obj_get (tasks b) t = Own rec" using assms(1) by (rule obj_get_Some)
  have pr: "present (obj_get (tasks b) t)" by (simp add: own present_def)
  have dest: "pro_destCol b t t = Str c"
    using has_key_Missing [OF assms(2)] by (simp add: pro_destCol_def own present_def opt_field_def assms(4))
  have mem: "t \<in> set ?xs" using assms(3) by (rule pro_sourceCol_Str)
  have lookup: "map_of (order b) c = Some ?xs" using mem by (rule order_or_empty_mem_map_of)
  have k: "prop_key (Str c) = c" by (simp add: prop_key_def)
  have ol: "order_list (order b) c = Inr ?xs"
    by (simp add: order_list_def order_get_Own [OF lookup])
  have res: "pro_handleDragEnd t_upd t_ts b t (Some t)
      = Inr (b\<lparr> tasks := (tasks b)(t \<mapsto> rec(''status'' \<mapsto> Str c, ''updatedAt'' \<mapsto> Str t_upd)),
                order := AList.update c
                           (splice_insert (indexOf ?xs t) t (splice_remove1 (indexOf ?xs t) ?xs))
                           (AList.update c (filter (\<lambda>x. x \<noteq> t) ?xs) (order b)),
                ts := t_ts \<rparr>)"
    by (simp add: pro_handleDragEnd_def Let_def dest assms(3) k ol own present_def spread_def)
  have upd: "AList.update c (splice_insert (indexOf ?xs t) t (splice_remove1 (indexOf ?xs t) ?xs))
               (order b) = order b"
    by (simp add: splice_insert_remove1_same [OF mem] update_triv [OF lookup])
  show ?thesis by (simp add: res board_after_def upd)
qed

text \<open>The theorem on the one-column board, dropping \<^verbatim>\<open>B\<close> onto itself.\<close>

theorem pro_self_drop_witness:
  "\<not> isl (pro_handleDragEnd ''t1'' ''t2'' (abc_board ''status'') ''B'' (Some ''B''))
   \<and> order (board_after (abc_board ''status'')
        (pro_handleDragEnd ''t1'' ''t2'' (abc_board ''status'') ''B'' (Some ''B'')))
     = [(''todo'', [''A'', ''B'', ''C''])]
   \<and> tasks (board_after (abc_board ''status'')
        (pro_handleDragEnd ''t1'' ''t2'' (abc_board ''status'') ''B'' (Some ''B'')))
     = (tasks (abc_board ''status''))(''B'' \<mapsto>
          (mk_task ''status'' ''B'' ''todo'')(''status'' \<mapsto> Str ''todo'', ''updatedAt'' \<mapsto> Str ''t1''))
   \<and> ts (board_after (abc_board ''status'')
        (pro_handleDragEnd ''t1'' ''t2'' (abc_board ''status'') ''B'' (Some ''B''))) = ''t2''"
proof -
  have h1: "tasks (abc_board ''status'') ''B'' = Some (mk_task ''status'' ''B'' ''todo'')"
    by (simp add: abc_board_def)
  have h2: "order_get (order (abc_board ''status'')) ''B'' = Missing"
    by (simp add: abc_board_def order_get_def obj_get_def object_prototype_names_def)
  have h3: "pro_sourceCol (order (abc_board ''status'')) ''B'' = Str ''todo''"
    by (simp add: pro_sourceCol_def abc_board_def order_or_empty_def)
  have h4: "get_field (mk_task ''status'' ''B'' ''todo'') ''status'' = Str ''todo''"
    by (simp add: mk_task_def get_field_def)
  have old: "order (abc_board ''status'') = [(''todo'', [''A'', ''B'', ''C''])]"
    by (simp add: abc_board_def)
  from pro_self_drop_keeps_order [OF h1 h2 h3 h4, of "''t1''" "''t2''"]
  show ?thesis by (simp add: old)
qed

text \<open>
  The claim as it was stated (\<^verbatim>\<open>order\<close> and \<^verbatim>\<open>tasks\<close> unchanged) fails in the Pro variant on
  the one-column board: dropping \<^verbatim>\<open>B\<close> onto itself returns a board whose \<^verbatim>\<open>tasks\<close> differ,
  since \<^verbatim>\<open>updatedAt\<close> of \<^verbatim>\<open>B\<close> goes from \<^verbatim>\<open>t0\<close> to \<^verbatim>\<open>t1\<close>.
\<close>

theorem self_drop_not_short_circuited_counterexample:
  "map_option (\<lambda>t. get_field t ''updatedAt'') (tasks (abc_board ''status'') ''B'') = Some (Str ''t0'')
   \<and> \<not> isl (pro_handleDragEnd ''t1'' ''t2'' (abc_board ''status'') ''B'' (Some ''B''))
   \<and> map_option (\<lambda>t. get_field t ''updatedAt'')
        (tasks (board_after (abc_board ''status'')
           (pro_handleDragEnd ''t1'' ''t2'' (abc_board ''status'') ''B'' (Some ''B''))) ''B'')
        = Some (Str ''t1'')
   \<and> tasks (board_after (abc_board ''status'')
        (pro_handleDragEnd ''t1'' ''t2'' (abc_board ''status'') ''B'' (Some ''B'')))
        \<noteq> tasks (abc_board ''status'')"
proof -
  let ?r = "pro_handleDragEnd ''t1'' ''t2'' (abc_board ''status'') ''B'' (Some ''B'')"
  have plain: "order_get (order (abc_board ''status''))
                 (prop_key (pro_destCol (abc_board ''status'') ''B'' ''B'')) \<noteq> Inherited"
    by (simp add: pro_destCol_def pro_sourceCol_def board_defs js_defs)
  have b: "map_option (\<lambda>t. get_field t ''updatedAt'') (tasks (abc_board ''status'') ''B'')
             = Some (Str ''t0'')"
    by (simp add: board_defs get_field_def)
  have r: "\<not> isl ?r" using plain by (rule pro_handleDragEnd_returns)
  have c: "map_option (\<lambda>t. get_field t ''updatedAt'')
             (tasks (board_after (abc_board ''status'') ?r) ''B'') = Some (Str ''t1'')"
    by (simp add: pro_handleDragEnd_tasks [OF plain] get_field_def)
  have d: "tasks (board_after (abc_board ''status'') ?r) \<noteq> tasks (abc_board ''status'')"
  proof
    assume "tasks (board_after (abc_board ''status'') ?r) = tasks (abc_board ''status'')"
    with c have "map_option (\<lambda>t. get_field t ''updatedAt'') (tasks (abc_board ''status'') ''B'')
                   = Some (Str ''t1'')"
      by simp
    with b show False by simp
  qed
  show ?thesis by (intro conjI; fact b r c d)
qed

section \<open>Drags with an unknown active id, and drops within one column\<close>

text \<open>
  Claim C6, as amended. A drag event whose active id is not a key of \<^verbatim>\<open>tasks\<close> is not
  rejected by the taskmaster and Pro handlers. With a drop target, the source column is
  \<^verbatim>\<open>undefined\<close> in taskmaster, and whenever \<^verbatim>\<open>board.order\<close> holds an array or nothing under the
  destination column, the handler returns, stores a new task under the unknown id,
  holding only the column field and \<^verbatim>\<open>updatedAt\<close>, and inserts the id into the order list
  of the destination column; the records of all other tasks are left as they were. A
  cancelled drop (\<^verbatim>\<open>over\<close> is \<^verbatim>\<open>null\<close>) returns the board unchanged. This holds whether or
  not the id occurs in an order list.
\<close>

theorem handleDragEnd_unknown_active_is_inserted:
  assumes "tasks b a = None"
  shows "(order_get (order b) (prop_key (tm_toColId b a o_id)) \<noteq> Inherited \<longrightarrow>
            \<not> isl (tm_handleDragEnd t_upd t_ts b a (Some o_id))
          \<and> tasks (board_after b (tm_handleDragEnd t_upd t_ts b a (Some o_id))) a
               = Some [''columnId'' \<mapsto> tm_toColId b a o_id, ''updatedAt'' \<mapsto> Str t_upd]
          \<and> a \<in> set (order_or_empty
                        (order (board_after b (tm_handleDragEnd t_upd t_ts b a (Some o_id))))
                        (prop_key (tm_toColId b a o_id)))
          \<and> (\<forall>k. k \<noteq> a \<longrightarrow>
                 tasks (board_after b (tm_handleDragEnd t_upd t_ts b a (Some o_id))) k = tasks b k))
       \<and> (order_get (order b) (prop_key (pro_destCol b a o_id)) \<noteq> Inherited \<longrightarrow>
            \<not> isl (pro_handleDragEnd t_upd t_ts b a (Some o_id))
          \<and> tasks (board_after b (pro_handleDragEnd t_upd t_ts b a (Some o_id))) a
               = Some [''status'' \<mapsto> pro_destCol b a o_id, ''updatedAt'' \<mapsto> Str t_upd]
          \<and> a \<in> set (order_or_empty
                        (order (board_after b (pro_handleDragEnd t_upd t_ts b a (Some o_id))))
                        (prop_key (pro_destCol b a o_id)))
          \<and> (\<forall>k. k \<noteq> a \<longrightarrow>
                 tasks (board_after b (pro_handleDragEnd t_upd t_ts b a (Some o_id))) k = tasks b k))
       \<and> tm_handleDragEnd t_upd t_ts b a None = Inr b
       \<and> pro_handleDragEnd t_upd t_ts b a None = Inr b"
proof -
  note no = obj_get_not_Own [of "tasks b" a, OF assms]
  have from_undef: "tm_fromColId b a = Undefined"
    by (simp add: tm_fromColId_def no)
  have f: "order_get (order b) (prop_key (tm_fromColId b a)) \<noteq> Inherited"
    by (simp add: from_undef prop_key_def order_get_undefined)
  have tm: "\<not> isl (tm_handleDragEnd t_upd t_ts b a (Some o_id))
          \<and> tasks (board_after b (tm_handleDragEnd t_upd t_ts b a (Some o_id))) a
               = Some [''columnId'' \<mapsto> tm_toColId b a o_id, ''updatedAt'' \<mapsto> Str t_upd]
          \<and> a \<in> set (order_or_empty
                        (order (board_after b (tm_handleDragEnd t_upd t_ts b a (Some o_id))))
                        (prop_key (tm_toColId b a o_id)))
          \<and> (\<forall>k. k \<noteq> a \<longrightarrow>
                 tasks (board_after b (tm_handleDragEnd t_upd t_ts b a (Some o_id))) k = tasks b k)"
    if t: "order_get (order b) (prop_key (tm_toColId b a o_id)) \<noteq> Inherited"
    using tm_handleDragEnd_returns [OF f t, of t_upd t_ts]
      tm_handleDragEnd_active_in_dest [OF f t, of t_upd t_ts]
    by (simp add: tm_handleDragEnd_tasks [OF f t] no)
  have pro: "\<not> isl (pro_handleDragEnd t_upd t_ts b a (Some o_id))
          \<and> tasks (board_after b (pro_handleDragEnd t_upd t_ts b a (Some o_id))) a
               = Some [''status'' \<mapsto> pro_destCol b a o_id, ''updatedAt'' \<mapsto> Str t_upd]
          \<and> a \<in> set (order_or_empty
                        (order (board_after b (pro_handleDragEnd t_upd t_ts b a (Some o_id))))
                        (prop_key (pro_destCol b a o_id)))
          \<and> (\<forall>k. k \<noteq> a \<longrightarrow>
                 tasks (board_after b (pro_handleDragEnd t_upd t_ts b a (Some o_id))) k = tasks b k)"
    if t: "order_get (order b) (prop_key (pro_destCol b a o_id)) \<noteq> Inherited"
    using pro_handleDragEnd_returns [OF t, of t_upd t_ts]
      pro_handleDragEnd_active_in_dest [OF t, of t_upd t_ts]
    by (simp add: pro_handleDragEnd_tasks [OF t] no)
  have n: "tm_handleDragEnd t_upd t_ts b a None = Inr b" "pro_handleDragEnd t_upd t_ts b a None = Inr b"
    by (simp_all add: tm_handleDragEnd_def pro_handleDragEnd_def)
  from tm pro n show ?thesis by blast
qed

text \<open>
  The theorem on the one-column board, dragging the unknown id \<^verbatim>\<open>Z\<close> onto the column
  \<^verbatim>\<open>todo\<close>.
\<close>

theorem handleDragEnd_unknown_active_witness:
  "\<not> isl (tm_handleDragEnd ''t1'' ''t2'' (abc_board ''columnId'') ''Z'' (Some ''todo''))
   \<and> tasks (board_after (abc_board ''columnId'')
        (tm_handleDragEnd ''t1'' ''t2'' (abc_board ''columnId'') ''Z'' (Some ''todo''))) ''Z''
      = Some [''columnId'' \<mapsto> Str ''todo'', ''updatedAt'' \<mapsto> Str ''t1'']
   \<and> ''Z'' \<in> set (order_or_empty (order (board_after (abc_board ''columnId'')
        (tm_handleDragEnd ''t1'' ''t2'' (abc_board ''columnId'') ''Z'' (Some ''todo'')))) ''todo'')
   \<and> \<not> isl (pro_handleDragEnd ''t1'' ''t2'' (abc_board ''status'') ''Z'' (Some ''todo''))
   \<and> tasks (board_after (abc_board ''status'')
        (pro_handleDragEnd ''t1'' ''t2'' (abc_board ''status'') ''Z'' (Some ''todo''))) ''Z''
      = Some [''status'' \<mapsto> Str ''todo'', ''updatedAt'' \<mapsto> Str ''t1'']
   \<and> ''Z'' \<in> set (order_or_empty (order (board_after (abc_board ''status'')
        (pro_handleDragEnd ''t1'' ''t2'' (abc_board ''status'') ''Z'' (Some ''todo'')))) ''todo'')"
proof -
  let ?bm = "abc_board ''columnId''" and ?bp = "abc_board ''status''"
  have h: "tasks ?bm ''Z'' = None" "tasks ?bp ''Z'' = None"
    by (simp_all add: abc_board_def)
  have c: "tm_toColId ?bm ''Z'' ''todo'' = Str ''todo''"
    "pro_destCol ?bp ''Z'' ''todo'' = Str ''todo''"
    by (simp_all add: tm_toColId_def pro_destCol_def abc_board_def has_key_def present_def
        order_get_def obj_get_def)
  have k: "prop_key (Str ''todo'') = ''todo''" by (simp add: prop_key_def)
  have plain: "order_get (order ?bm) ''todo'' \<noteq> Inherited" "order_get (order ?bp) ''todo'' \<noteq> Inherited"
    by (simp_all add: abc_board_def order_get_def obj_get_def)
  have pm: "order_get (order ?bm) (prop_key (tm_toColId ?bm ''Z'' ''todo'')) \<noteq> Inherited"
    by (simp only: c k plain) simp
  have pp: "order_get (order ?bp) (prop_key (pro_destCol ?bp ''Z'' ''todo'')) \<noteq> Inherited"
    by (simp only: c k plain) simp
  note A = handleDragEnd_unknown_active_is_inserted [OF h(1), of "''todo''" "''t1''" "''t2''"]
  note B = handleDragEnd_unknown_active_is_inserted [OF h(2), of "''todo''" "''t1''" "''t2''"]
  from A pm have a0: "\<not> isl (tm_handleDragEnd ''t1'' ''t2'' ?bm ''Z'' (Some ''todo''))"
    by blast
  from A pm have a1: "tasks (board_after ?bm (tm_handleDragEnd ''t1'' ''t2'' ?bm ''Z'' (Some ''todo''))) ''Z''
      = Some [''columnId'' \<mapsto> tm_toColId ?bm ''Z'' ''todo'', ''updatedAt'' \<mapsto> Str ''t1'']"
    by blast
  from A pm have a2: "''Z'' \<in> set (order_or_empty (order (board_after ?bm
        (tm_handleDragEnd ''t1'' ''t2'' ?bm ''Z'' (Some ''todo''))))
        (prop_key (tm_toColId ?bm ''Z'' ''todo'')))"
    by blast
  from B pp have b0: "\<not> isl (pro_handleDragEnd ''t1'' ''t2'' ?bp ''Z'' (Some ''todo''))"
    by blast
  from B pp have b1: "tasks (board_after ?bp (pro_handleDragEnd ''t1'' ''t2'' ?bp ''Z'' (Some ''todo''))) ''Z''
      = Some [''status'' \<mapsto> pro_destCol ?bp ''Z'' ''todo'', ''updatedAt'' \<mapsto> Str ''t1'']"
    by blast
  from B pp have b2: "''Z'' \<in> set (order_or_empty (order (board_after ?bp
        (pro_handleDragEnd ''t1'' ''t2'' ?bp ''Z'' (Some ''todo''))))
        (prop_key (pro_destCol ?bp ''Z'' ''todo'')))"
    by blast
  from a0 a1 a2 b0 b1 b2 show ?thesis by (simp only: c k) blast
qed

text \<open>
  The claim as it was stated (the unknown id is added to no order list and no entry of
  \<^verbatim>\<open>tasks\<close> is created) fails on the one-column board: \<^verbatim>\<open>Z\<close> is neither a task nor listed,
  and dragging \<^verbatim>\<open>Z\<close> onto \<^verbatim>\<open>todo\<close> returns a board with a task \<^verbatim>\<open>Z\<close>, where \<^verbatim>\<open>order.todo\<close>
  is \<^verbatim>\<open>[A, B, C, Z]\<close> and \<^verbatim>\<open>order\<close> has the new key \<^verbatim>\<open>undefined\<close>.
\<close>

theorem handleDragEnd_unknown_active_counterexample:
  "tasks (abc_board ''columnId'') ''Z'' = None
   \<and> occurrences (abc_board ''columnId'') ''Z'' = 0
   \<and> \<not> isl (tm_handleDragEnd ''t1'' ''t2'' (abc_board ''columnId'') ''Z'' (Some ''todo''))
   \<and> tasks (board_after (abc_board ''columnId'')
        (tm_handleDragEnd ''t1'' ''t2'' (abc_board ''columnId'') ''Z'' (Some ''todo''))) ''Z'' \<noteq> None
   \<and> order (board_after (abc_board ''columnId'')
        (tm_handleDragEnd ''t1'' ''t2'' (abc_board ''columnId'') ''Z'' (Some ''todo'')))
       = [(''todo'', [''A'', ''B'', ''C'', ''Z'']), (''undefined'', [])]
   \<and> tasks (abc_board ''status'') ''Z'' = None
   \<and> occurrences (abc_board ''status'') ''Z'' = 0
   \<and> \<not> isl (pro_handleDragEnd ''t1'' ''t2'' (abc_board ''status'') ''Z'' (Some ''todo''))
   \<and> tasks (board_after (abc_board ''status'')
        (pro_handleDragEnd ''t1'' ''t2'' (abc_board ''status'') ''Z'' (Some ''todo''))) ''Z'' \<noteq> None
   \<and> order (board_after (abc_board ''status'')
        (pro_handleDragEnd ''t1'' ''t2'' (abc_board ''status'') ''Z'' (Some ''todo'')))
       = [(''todo'', [''A'', ''B'', ''C'', ''Z'']), (''undefined'', [])]"
  by (simp add: tm_handleDragEnd_def tm_toColId_def tm_fromColId_def pro_handleDragEnd_def
      pro_destCol_def pro_sourceCol_def occurrences_def board_after_def board_defs js_defs Let_def)

text \<open>
  Claim C1 does not hold of the code. On the one-column board every task is placed once,
  in the column it records. Dropping the card \<^verbatim>\<open>A\<close> on the container of its own column
  \<^verbatim>\<open>todo\<close> returns, in all three prototypes, a board with the order \<^verbatim>\<open>[A, B, C, A]\<close>: the
  destination list is a copy of the column's list that still holds \<^verbatim>\<open>A\<close>, \<^verbatim>\<open>A\<close> is appended to
  it, and it overwrites the filtered source list under the same key. \<^verbatim>\<open>A\<close> then occurs
  twice.
\<close>

theorem same_column_drop_duplicates_the_card:
  "placed_once ''columnId'' (abc_board ''columnId'') ''A''
   \<and> placed_once ''columnId'' (abc_board ''columnId'') ''B''
   \<and> placed_once ''columnId'' (abc_board ''columnId'') ''C''
   \<and> \<not> isl (tm_handleDragEnd ''t1'' ''t2'' (abc_board ''columnId'') ''A'' (Some ''todo''))
   \<and> order (board_after (abc_board ''columnId'')
        (tm_handleDragEnd ''t1'' ''t2'' (abc_board ''columnId'') ''A'' (Some ''todo'')))
       = [(''todo'', [''A'', ''B'', ''C'', ''A''])]
   \<and> occurrences (board_after (abc_board ''columnId'')
        (tm_handleDragEnd ''t1'' ''t2'' (abc_board ''columnId'') ''A'' (Some ''todo''))) ''A'' = 2
   \<and> \<not> placed_once ''columnId'' (board_after (abc_board ''columnId'')
        (tm_handleDragEnd ''t1'' ''t2'' (abc_board ''columnId'') ''A'' (Some ''todo''))) ''A''
   \<and> \<not> isl (tdm_handleDragEnd ''t1'' ''t2'' (abc_board ''columnId'') ''A'' (Some ''todo''))
   \<and> order (board_after (abc_board ''columnId'')
        (tdm_handleDragEnd ''t1'' ''t2'' (abc_board ''columnId'') ''A'' (Some ''todo'')))
       = [(''todo'', [''A'', ''B'', ''C'', ''A''])]
   \<and> \<not> placed_once ''columnId'' (board_after (abc_board ''columnId'')
        (tdm_handleDragEnd ''t1'' ''t2'' (abc_board ''columnId'') ''A'' (Some ''todo''))) ''A''
   \<and> placed_once ''status'' (abc_board ''status'') ''A''
   \<and> placed_once ''status'' (abc_board ''status'') ''B''
   \<and> placed_once ''status'' (abc_board ''status'') ''C''
   \<and> \<not> isl (pro_handleDragEnd ''t1'' ''t2'' (abc_board ''status'') ''A'' (Some ''todo''))
   \<and> order (board_after (abc_board ''status'')
        (pro_handleDragEnd ''t1'' ''t2'' (abc_board ''status'') ''A'' (Some ''todo'')))
       = [(''todo'', [''A'', ''B'', ''C'', ''A''])]
   \<and> occurrences (board_after (abc_board ''status'')
        (pro_handleDragEnd ''t1'' ''t2'' (abc_board ''status'') ''A'' (Some ''todo''))) ''A'' = 2
   \<and> \<not> placed_once ''status'' (board_after (abc_board ''status'')
        (pro_handleDragEnd ''t1'' ''t2'' (abc_board ''status'') ''A'' (Some ''todo''))) ''A''"
proof -
  let ?bm = "abc_board ''columnId''" and ?bp = "abc_board ''status''"
  let ?tm = "tm_handleDragEnd ''t1'' ''t2'' ?bm ''A'' (Some ''todo'')"
  let ?tdm = "tdm_handleDragEnd ''t1'' ''t2'' ?bm ''A'' (Some ''todo'')"
  let ?pro = "pro_handleDragEnd ''t1'' ''t2'' ?bp ''A'' (Some ''todo'')"
  have before: "placed_once ''columnId'' ?bm ''A''" "placed_once ''columnId'' ?bm ''B''"
    "placed_once ''columnId'' ?bm ''C''" "placed_once ''status'' ?bp ''A''"
    "placed_once ''status'' ?bp ''B''" "placed_once ''status'' ?bp ''C''"
    by (simp_all add: placed_once_def occurrences_def board_defs js_defs)
  have ret: "\<not> isl ?tm" "\<not> isl ?tdm" "\<not> isl ?pro"
    by (simp_all add: tm_handleDragEnd_def tm_toColId_def tm_fromColId_def
        tdm_handleDragEnd_def tdm_toColId_def tdm_fromColId_def
        pro_handleDragEnd_def pro_destCol_def pro_sourceCol_def board_defs js_defs Let_def)
  have tm: "order (board_after ?bm ?tm) = [(''todo'', [''A'', ''B'', ''C'', ''A''])]"
    by (simp add: tm_handleDragEnd_def tm_toColId_def tm_fromColId_def board_after_def
        board_defs js_defs Let_def)
  have tdm: "order (board_after ?bm ?tdm) = [(''todo'', [''A'', ''B'', ''C'', ''A''])]"
    by (simp add: tdm_handleDragEnd_def tdm_toColId_def tdm_fromColId_def board_after_def
        board_defs js_defs Let_def)
  have pro: "order (board_after ?bp ?pro) = [(''todo'', [''A'', ''B'', ''C'', ''A''])]"
    by (simp add: pro_handleDragEnd_def pro_destCol_def pro_sourceCol_def board_after_def
        board_defs js_defs Let_def)
  have occ: "occurrences (board_after ?bm ?tm) ''A'' = 2"
    "occurrences (board_after ?bm ?tdm) ''A'' = 2"
    "occurrences (board_after ?bp ?pro) ''A'' = 2"
    by (simp_all add: occurrences_def tm tdm pro)
  have present: "tasks (board_after ?bm ?tm) ''A'' \<noteq> None"
    "tasks (board_after ?bm ?tdm) ''A'' \<noteq> None"
    "tasks (board_after ?bp ?pro) ''A'' \<noteq> None"
    by (simp_all add: tm_handleDragEnd_def tm_toColId_def tm_fromColId_def
        tdm_handleDragEnd_def tdm_toColId_def tdm_fromColId_def
        pro_handleDragEnd_def pro_destCol_def pro_sourceCol_def board_after_def
        board_defs js_defs Let_def)
  have after: "\<not> placed_once ''columnId'' (board_after ?bm ?tm) ''A''"
    "\<not> placed_once ''columnId'' (board_after ?bm ?tdm) ''A''"
    "\<not> placed_once ''status'' (board_after ?bp ?pro) ''A''"
    by (rule not_placed_once [OF present(1) occ(1)], rule not_placed_once [OF present(2) occ(2)],
        rule not_placed_once [OF present(3) occ(3)])
  show ?thesis by (intro conjI; fact before ret tm tdm pro occ after)
qed

end
